theory Spec2Isabelle
  imports Main "HOL-Library.Word"
begin

section \<open>Data model of the \<open>agent_vault\<close> Move module\<close>

text \<open>
  The Move module \<open>agent_vault::agent_vault\<close> is embedded as pure functions over
  records. Move's \<open>u64\<close> and \<open>u8\<close> are 64-bit and 8-bit words; comparison on words
  is unsigned, as in Move. Move aborts the transaction on \<open>u64\<close> overflow and underflow
  instead of wrapping, so arithmetic is written with the checked operations \<open>add_u64\<close>
  and \<open>sub_u64\<close> below. Object identifiers and addresses are 32-byte values.

  Several structs of the source share the field names \<open>id\<close> and \<open>vault_id\<close>; record
  fields are global constants in HOL, so the fields are prefixed with the struct they
  belong to (\<open>vault_uid\<close> is \<open>Vault.id\<close>, \<open>agent_cap_vault_id\<close> is
  \<open>AgentCap.vault_id\<close>, and so on).
\<close>

type_synonym u64 = "64 word"
type_synonym u8 = "8 word"
type_synonym address = "256 word"
type_synonym ID = "256 word"

text \<open>
  The abort codes of the module (\<open>E_NOT_OWNER = 0\<close> ... \<open>E_ZERO_AMOUNT = 8\<close>),
  together with the aborts that the Move runtime and the framework raise on their own:
  an arithmetic overflow or underflow, \<open>sui::balance::split\<close> on too small a balance,
  and \<open>vector::remove\<close> out of bounds.
\<close>

datatype error =
    E_NOT_OWNER
  | E_BUDGET_EXCEEDED
  | E_NOT_WHITELISTED
  | E_EXPIRED
  | E_COOLDOWN
  | E_INVALID_CAP
  | E_INSUFFICIENT_BALANCE
  | E_PER_TX_EXCEEDED
  | E_ZERO_AMOUNT
  | ARITHMETIC_ERROR
  | E_NOT_ENOUGH
  | E_INDEX_OUT_OF_BOUNDS

fun abort_code :: "error \<Rightarrow> nat option" where
  "abort_code E_NOT_OWNER = Some 0"
| "abort_code E_BUDGET_EXCEEDED = Some 1"
| "abort_code E_NOT_WHITELISTED = Some 2"
| "abort_code E_EXPIRED = Some 3"
| "abort_code E_COOLDOWN = Some 4"
| "abort_code E_INVALID_CAP = Some 5"
| "abort_code E_INSUFFICIENT_BALANCE = Some 6"
| "abort_code E_PER_TX_EXCEEDED = Some 7"
| "abort_code E_ZERO_AMOUNT = Some 8"
| "abort_code _ = None"

record Policy =
  max_budget :: u64
  max_per_tx :: u64
  allowed_actions :: "u8 list"
  cooldown_ms :: u64
  expires_at :: u64

record Vault =
  vault_uid :: ID
  owner :: address
  balance_sui :: u64
  policy :: Policy
  authorized_caps :: "ID list"
  total_spent :: u64
  last_tx_time :: u64
  tx_count :: u64

record AgentCap =
  agent_cap_uid :: ID
  agent_cap_vault_id :: ID

record OwnerCap =
  owner_cap_uid :: ID
  owner_cap_vault_id :: ID

text \<open>The events of the module, with the fields in the order of the source.\<close>

datatype event =
    VaultCreated ID address u64 u64
  | AgentWithdrawal ID ID u64 u8 u64 u64 u64 u64
  | PolicyUpdated ID u64 u64 u64 u64
  | AgentCapCreated ID ID address
  | AgentCapRevoked ID ID
  | Deposited ID u64 u64
  | WithdrawnAll ID u64

section \<open>Runtime and framework operations used by the module\<close>

text \<open>
  An abort is the left injection of a sum; \<open>and_then\<close> sequences two steps and stops
  at the first abort; \<open>move_assert\<close> is Move's \<open>assert!(cond, code)\<close>.
\<close>

definition and_then :: "error + 'a \<Rightarrow> ('a \<Rightarrow> error + 'b) \<Rightarrow> error + 'b" where
  "and_then r f = (case r of Inl e \<Rightarrow> Inl e | Inr x \<Rightarrow> f x)"

definition move_assert :: "bool \<Rightarrow> error \<Rightarrow> error + unit" where
  "move_assert c e = (if c then Inr () else Inl e)"

definition add_u64 :: "u64 \<Rightarrow> u64 \<Rightarrow> error + u64" where
  "add_u64 a b = (if unat a + unat b < 2 ^ 64 then Inr (a + b) else Inl ARITHMETIC_ERROR)"

definition sub_u64 :: "u64 \<Rightarrow> u64 \<Rightarrow> error + u64" where
  "sub_u64 a b = (if b \<le> a then Inr (a - b) else Inl ARITHMETIC_ERROR)"

text \<open>
  \<open>vector::index_of\<close> scans from the front and returns \<open>(true, i)\<close> for the first
  index holding the element, \<open>(false, 0)\<close> when there is none; \<open>vector::contains\<close>
  is the membership test; \<open>vector::remove\<close> takes the element at an index out and
  shifts the rest, aborting out of bounds; \<open>vector::push_back\<close> appends.
\<close>

fun index_of_from :: "'a list \<Rightarrow> 'a \<Rightarrow> nat \<Rightarrow> bool \<times> nat" where
  "index_of_from [] e i = (False, 0)"
| "index_of_from (x # xs) e i = (if x = e then (True, i) else index_of_from xs e (Suc i))"

definition index_of :: "'a list \<Rightarrow> 'a \<Rightarrow> bool \<times> nat" where
  "index_of v e = index_of_from v e 0"

fun contains :: "'a list \<Rightarrow> 'a \<Rightarrow> bool" where
  "contains [] e = False"
| "contains (x # xs) e = (if x = e then True else contains xs e)"

definition vector_remove :: "'a list \<Rightarrow> nat \<Rightarrow> error + ('a list \<times> 'a)" where
  "vector_remove v i =
     (if i \<ge> length v then Inl E_INDEX_OUT_OF_BOUNDS
      else Inr (take i v @ drop (Suc i) v, v ! i))"

definition push_back :: "'a list \<Rightarrow> 'a \<Rightarrow> 'a list" where
  "push_back v e = v @ [e]"

text \<open>
  \<open>Balance<SUI>\<close> and \<open>Coin<SUI>\<close> are represented by their \<open>u64\<close> value.
  \<open>balance::join\<close> adds (aborting on overflow), \<open>balance::split\<close> takes an amount
  out and aborts with \<open>ENotEnough\<close> when the balance is smaller.
\<close>

definition balance_join :: "u64 \<Rightarrow> u64 \<Rightarrow> error + u64" where
  "balance_join self b = add_u64 self b"

definition balance_split :: "u64 \<Rightarrow> u64 \<Rightarrow> error + (u64 \<times> u64)" where
  "balance_split self v =
     and_then (move_assert (self \<ge> v) E_NOT_ENOUGH) (\<lambda>_. Inr (self - v, v))"

section \<open>The public functions of the module\<close>

text \<open>
  Each function takes the vault and returns either an abort or the updated vault with
  what the function hands out (coins, capabilities) and the events it emits. The
  transaction context contributes the sender and the fresh object identifiers made by
  \<open>object::new\<close>; they are parameters here. The clock contributes \<open>timestamp_ms\<close>,
  the parameter \<open>now\<close>.
\<close>

definition create_vault ::
  "u64 \<Rightarrow> u64 \<Rightarrow> u64 \<Rightarrow> u8 list \<Rightarrow> u64 \<Rightarrow> u64 \<Rightarrow> address \<Rightarrow> ID \<Rightarrow> ID
     \<Rightarrow> Vault \<times> OwnerCap \<times> event list" where
  "create_vault coin mb mpt acts cd ex sender new_vault_uid new_cap_uid =
     (let vault_id = new_vault_uid;
          initial_balance = coin;
          vault = \<lparr> vault_uid = new_vault_uid,
                    owner = sender,
                    balance_sui = coin,
                    policy = \<lparr> max_budget = mb, max_per_tx = mpt, allowed_actions = acts,
                               cooldown_ms = cd, expires_at = ex \<rparr>,
                    authorized_caps = [],
                    total_spent = 0,
                    last_tx_time = 0,
                    tx_count = 0 \<rparr>;
          owner_cap = \<lparr> owner_cap_uid = new_cap_uid, owner_cap_vault_id = vault_id \<rparr>
      in (vault, owner_cap, [VaultCreated vault_id sender initial_balance mb]))"

definition deposit :: "Vault \<Rightarrow> OwnerCap \<Rightarrow> u64 \<Rightarrow> error + (Vault \<times> event list)" where
  "deposit vault owner_cap coin =
     and_then (move_assert (owner_cap_vault_id owner_cap = vault_uid vault) E_NOT_OWNER) (\<lambda>_.
     let amount = coin in
     and_then (balance_join (balance_sui vault) coin) (\<lambda>joined.
     let vault = vault\<lparr>balance_sui := joined\<rparr> in
     Inr (vault, [Deposited (vault_uid vault) amount (balance_sui vault)])))"

definition withdraw_all :: "Vault \<Rightarrow> OwnerCap \<Rightarrow> error + (Vault \<times> u64 \<times> event list)" where
  "withdraw_all vault owner_cap =
     and_then (move_assert (owner_cap_vault_id owner_cap = vault_uid vault) E_NOT_OWNER) (\<lambda>_.
     let amount = balance_sui vault in
     and_then (balance_split (balance_sui vault) amount) (\<lambda>(rest, taken).
     Inr (vault\<lparr>balance_sui := rest\<rparr>, taken, [WithdrawnAll (vault_uid vault) amount])))"

definition withdraw :: "Vault \<Rightarrow> OwnerCap \<Rightarrow> u64 \<Rightarrow> error + (Vault \<times> u64 \<times> event list)" where
  "withdraw vault owner_cap amount =
     and_then (move_assert (owner_cap_vault_id owner_cap = vault_uid vault) E_NOT_OWNER) (\<lambda>_.
     and_then (move_assert (amount > 0) E_ZERO_AMOUNT) (\<lambda>_.
     and_then (move_assert (balance_sui vault \<ge> amount) E_INSUFFICIENT_BALANCE) (\<lambda>_.
     and_then (balance_split (balance_sui vault) amount) (\<lambda>(rest, taken).
     Inr (vault\<lparr>balance_sui := rest\<rparr>, taken, [])))))"

definition reset_counters :: "Vault \<Rightarrow> OwnerCap \<Rightarrow> error + (Vault \<times> event list)" where
  "reset_counters vault owner_cap =
     and_then (move_assert (owner_cap_vault_id owner_cap = vault_uid vault) E_NOT_OWNER) (\<lambda>_.
     Inr (vault\<lparr>total_spent := 0, tx_count := 0, last_tx_time := 0\<rparr>, []))"

definition update_policy ::
  "Vault \<Rightarrow> OwnerCap \<Rightarrow> u64 \<Rightarrow> u64 \<Rightarrow> u8 list \<Rightarrow> u64 \<Rightarrow> u64 \<Rightarrow> error + (Vault \<times> event list)" where
  "update_policy vault owner_cap mb mpt acts cd ex =
     and_then (move_assert (owner_cap_vault_id owner_cap = vault_uid vault) E_NOT_OWNER) (\<lambda>_.
     Inr (vault\<lparr>policy := \<lparr> max_budget = mb, max_per_tx = mpt, allowed_actions = acts,
                              cooldown_ms = cd, expires_at = ex \<rparr>\<rparr>,
          [PolicyUpdated (vault_uid vault) mb mpt cd ex]))"

definition create_agent_cap ::
  "Vault \<Rightarrow> OwnerCap \<Rightarrow> address \<Rightarrow> ID \<Rightarrow> error + (Vault \<times> (AgentCap \<times> address) \<times> event list)" where
  "create_agent_cap vault owner_cap agent_address new_cap_uid =
     and_then (move_assert (owner_cap_vault_id owner_cap = vault_uid vault) E_NOT_OWNER) (\<lambda>_.
     let cap_id = new_cap_uid;
         agent_cap = \<lparr> agent_cap_uid = new_cap_uid, agent_cap_vault_id = vault_uid vault \<rparr>
     in Inr (vault\<lparr>authorized_caps := push_back (authorized_caps vault) cap_id\<rparr>,
             (agent_cap, agent_address),
             [AgentCapCreated (vault_uid vault) cap_id agent_address]))"

definition revoke_agent_cap :: "Vault \<Rightarrow> OwnerCap \<Rightarrow> ID \<Rightarrow> error + (Vault \<times> event list)" where
  "revoke_agent_cap vault owner_cap cap_id =
     and_then (move_assert (owner_cap_vault_id owner_cap = vault_uid vault) E_NOT_OWNER) (\<lambda>_.
     let (found, idx) = index_of (authorized_caps vault) cap_id in
     and_then (move_assert found E_INVALID_CAP) (\<lambda>_.
     and_then (vector_remove (authorized_caps vault) idx) (\<lambda>(rest, removed).
     Inr (vault\<lparr>authorized_caps := rest\<rparr>, [AgentCapRevoked (vault_uid vault) cap_id]))))"

text \<open>
  \<open>agent_withdraw\<close>: the asserts in the order of the source (steps 0 to 8), then the
  counter updates (step 9), the event, and the split of the balance (step 10).
\<close>

definition agent_withdraw ::
  "Vault \<Rightarrow> AgentCap \<Rightarrow> u64 \<Rightarrow> u8 \<Rightarrow> u64 \<Rightarrow> error + (Vault \<times> u64 \<times> event list)" where
  "agent_withdraw vault cap amount action_type now =
     and_then (move_assert (amount > 0) E_ZERO_AMOUNT) (\<lambda>_.
     and_then (move_assert (agent_cap_vault_id cap = vault_uid vault) E_INVALID_CAP) (\<lambda>_.
     let cap_id = agent_cap_uid cap;
         (authorized, _) = index_of (authorized_caps vault) cap_id in
     and_then (move_assert authorized E_INVALID_CAP) (\<lambda>_.
     and_then (move_assert (now < expires_at (policy vault)) E_EXPIRED) (\<lambda>_.
     and_then (if tx_count vault > 0
               then and_then (sub_u64 now (last_tx_time vault)) (\<lambda>elapsed.
                    move_assert (elapsed \<ge> cooldown_ms (policy vault)) E_COOLDOWN)
               else Inr ()) (\<lambda>_.
     and_then (move_assert (amount \<le> max_per_tx (policy vault)) E_PER_TX_EXCEEDED) (\<lambda>_.
     and_then (sub_u64 (max_budget (policy vault)) (total_spent vault)) (\<lambda>remaining.
     and_then (move_assert (amount \<le> remaining) E_BUDGET_EXCEEDED) (\<lambda>_.
     and_then (move_assert (contains (allowed_actions (policy vault)) action_type)
                 E_NOT_WHITELISTED) (\<lambda>_.
     and_then (move_assert (balance_sui vault \<ge> amount) E_INSUFFICIENT_BALANCE) (\<lambda>_.
     and_then (add_u64 (total_spent vault) amount) (\<lambda>spent.
     let vault = vault\<lparr>total_spent := spent\<rparr>;
         vault = vault\<lparr>last_tx_time := now\<rparr> in
     and_then (add_u64 (tx_count vault) 1) (\<lambda>cnt.
     let vault = vault\<lparr>tx_count := cnt\<rparr> in
     and_then (sub_u64 (max_budget (policy vault)) (total_spent vault)) (\<lambda>remaining_budget.
     let ev = AgentWithdrawal (vault_uid vault) (agent_cap_uid cap) amount action_type
                (total_spent vault) remaining_budget (tx_count vault) now in
     and_then (balance_split (balance_sui vault) amount) (\<lambda>(rest, taken).
     Inr (vault\<lparr>balance_sui := rest\<rparr>, taken, [ev])))))))))))))))"

section \<open>Ledger semantics: sequences of transactions\<close>

text \<open>
  A call of a public function is a transaction on the shared vault. An abort reverts
  the whole transaction, so the vault on the ledger stays as it was; a success commits
  the updated vault. \<open>commit\<close> is that rule, \<open>run_ops\<close> applies a sequence of
  transactions in order.
\<close>

datatype op =
    Deposit OwnerCap u64
  | WithdrawAll OwnerCap
  | Withdraw OwnerCap u64
  | ResetCounters OwnerCap
  | UpdatePolicy OwnerCap u64 u64 "u8 list" u64 u64
  | CreateAgentCap OwnerCap address ID
  | RevokeAgentCap OwnerCap ID
  | AgentWithdraw AgentCap u64 u8 u64

fun apply_op :: "Vault \<Rightarrow> op \<Rightarrow> error + Vault" where
  "apply_op v (Deposit oc coin) = and_then (deposit v oc coin) (\<lambda>(v', _). Inr v')"
| "apply_op v (WithdrawAll oc) = and_then (withdraw_all v oc) (\<lambda>(v', _). Inr v')"
| "apply_op v (Withdraw oc amount) = and_then (withdraw v oc amount) (\<lambda>(v', _). Inr v')"
| "apply_op v (ResetCounters oc) = and_then (reset_counters v oc) (\<lambda>(v', _). Inr v')"
| "apply_op v (UpdatePolicy oc mb mpt acts cd ex) =
     and_then (update_policy v oc mb mpt acts cd ex) (\<lambda>(v', _). Inr v')"
| "apply_op v (CreateAgentCap oc a new_cap_uid) =
     and_then (create_agent_cap v oc a new_cap_uid) (\<lambda>(v', _). Inr v')"
| "apply_op v (RevokeAgentCap oc cap_id) =
     and_then (revoke_agent_cap v oc cap_id) (\<lambda>(v', _). Inr v')"
| "apply_op v (AgentWithdraw cap amount action_type now) =
     and_then (agent_withdraw v cap amount action_type now) (\<lambda>(v', _). Inr v')"

definition commit :: "Vault \<Rightarrow> error + Vault \<Rightarrow> Vault" where
  "commit v r = (case r of Inl _ \<Rightarrow> v | Inr v' \<Rightarrow> v')"

fun run_ops :: "Vault \<Rightarrow> op list \<Rightarrow> Vault" where
  "run_ops v [] = v"
| "run_ops v (x # xs) = run_ops (commit v (apply_op v x)) xs"

text \<open>The identifiers that a sequence of transactions asks \<open>create_agent_cap\<close> to mint.\<close>

fun minted :: "op list \<Rightarrow> ID list" where
  "minted [] = []"
| "minted (CreateAgentCap oc a new_cap_uid # xs) = new_cap_uid # minted xs"
| "minted (_ # xs) = minted xs"

section \<open>The off-chain policy pre-check (TypeScript)\<close>

text \<open>
  \<open>VaultData\<close> and its policy are the interfaces of \<open>lib/vault/types.ts\<close>. A
  \<open>bigint\<close> is an \<open>int\<close>. A \<open>number\<close> is a double; the numbers of this code
  (timestamps, a count, action tags, and their differences) are integers, and such a
  double is represented by the integer it holds. A double holds every integer up to
  \<open>2 ^ 53\<close> in magnitude and, beyond that, only the integers with 53 significant bits:
  \<open>round_double\<close> rounds an integer to the nearest double, ties to the even
  significand, as \<open>Number(_)\<close> and the arithmetic of doubles do (\<open>quantum 1 m\<close> is the
  spacing of the doubles around \<open>m\<close>; the overflow to infinity, far above \<open>2 ^ 64\<close>,
  is out of reach here). \<open>Number\<close> converts the decimal string of a \<open>u64\<close> field, and
  \<open>js_minus\<close> is the subtraction of two doubles. The identifier strings are kept as
  the identifiers they encode. The TypeScript policy interface is called \<open>Policy\<close> in
  the source; it is \<open>PolicyData\<close> here, next to the Move struct, and the fields
  \<open>id\<close>, \<open>owner\<close> and \<open>policy\<close> of \<open>VaultData\<close> carry the prefix \<open>vd_\<close>.
\<close>

function quantum :: "int \<Rightarrow> int \<Rightarrow> int" where
  "quantum q m = (if q \<le> 0 \<or> m < q * 2 ^ 53 then q else quantum (2 * q) m)"
  by pat_completeness auto
termination
  by (relation "measure (\<lambda>(q, m). nat (m - q * 2 ^ 53 + 1))") auto

declare quantum.simps [simp del]

definition round_double :: "int \<Rightarrow> int" where
  "round_double x =
     (if \<bar>x\<bar> \<le> 2 ^ 53 then x
      else (let m = \<bar>x\<bar>;
                q = quantum 1 m;
                d = m div q;
                r = m mod q;
                up = (2 * r > q \<or> (2 * r = q \<and> odd d))
            in sgn x * ((if up then d + 1 else d) * q)))"

definition Number :: "u64 \<Rightarrow> int" where
  "Number x = round_double (uint x)"

definition js_minus :: "int \<Rightarrow> int \<Rightarrow> int" where
  "js_minus a b = round_double (a - b)"

record PolicyData =
  maxBudget :: int
  maxPerTx :: int
  allowedActions :: "int list"
  cooldownMs :: int
  expiresAt :: int

record VaultData =
  vd_id :: ID
  vd_owner :: address
  balance :: int
  vd_policy :: PolicyData
  authorizedCaps :: "ID list"
  totalSpent :: int
  lastTxTime :: int
  txCount :: int

text \<open>
  \<open>parsePolicy\<close> and \<open>parseVaultData\<close> of \<open>lib/vault/service.ts\<close> read the fields
  of the on-chain object (\<open>flds\<close>): \<open>BigInt(String(_))\<close> for the amounts, \<open>Number(_)\<close> for the
  times and the count.
\<close>

definition parsePolicy :: "Policy \<Rightarrow> PolicyData" where
  "parsePolicy f =
     \<lparr> maxBudget = uint (max_budget f),
       maxPerTx = uint (max_per_tx f),
       allowedActions = map uint (allowed_actions f),
       cooldownMs = Number (cooldown_ms f),
       expiresAt = Number (expires_at f) \<rparr>"

definition parseVaultData :: "ID \<Rightarrow> Vault \<Rightarrow> VaultData" where
  "parseVaultData objectId flds =
     \<lparr> vd_id = objectId,
       vd_owner = owner flds,
       balance = uint (balance_sui flds),
       vd_policy = parsePolicy (policy flds),
       authorizedCaps = authorized_caps flds,
       totalSpent = uint (total_spent flds),
       lastTxTime = Number (last_tx_time flds),
       txCount = Number (tx_count flds) \<rparr>"

text \<open>
  The reason of a verdict is a message built from a template; each constructor is one
  template of the source with the values it interpolates:
  \<^item> \<open>PolicyExpired\<close>: "Policy has expired";
  \<^item> \<open>CooldownActive r\<close>: "Cooldown active: \<open>s\<close>s remaining", where \<open>r\<close> is the
    remaining time in milliseconds and the seconds \<open>s\<close> shown are
    \<open>Math.ceil(r / 1000)\<close>; the constructor keeps \<open>r\<close>, which determines the message;
  \<^item> \<open>NotWhitelisted a\<close>: "Action type \<open>a\<close> is not whitelisted";
  \<^item> \<open>AmountNotPositive\<close>: "Amount must be greater than zero";
  \<^item> \<open>ExceedsPerTx a m\<close>: "Amount \<open>a\<close> exceeds per-tx limit \<open>m\<close>";
  \<^item> \<open>ExceedsBudget a r\<close>: "Amount \<open>a\<close> exceeds remaining budget \<open>r\<close>";
  \<^item> \<open>InsufficientVaultBalance b a\<close>: "Insufficient vault balance: \<open>b\<close> < \<open>a\<close>";
  \<^item> \<open>CheckPassed\<close>: "Policy check passed".
\<close>

datatype reason =
    PolicyExpired
  | CooldownActive int
  | NotWhitelisted int
  | AmountNotPositive
  | ExceedsPerTx int int
  | ExceedsBudget int int
  | InsufficientVaultBalance int int
  | CheckPassed

record PolicyCheckResult =
  allowed :: bool
  reason :: reason

text \<open>
  \<open>Array.prototype.includes\<close> is \<open>array_includes\<close>. In \<open>checkPolicy\<close> every early
  \<open>return\<close> of the source is a branch; the cooldown step, an \<open>if\<close> on the count
  around an \<open>if\<close> on the elapsed time with no \<open>else\<close>, is the conjunction of the
  two conditions. The two subtractions of the cooldown step are subtractions of
  doubles; the amounts are \<open>bigint\<close> and exact. The optional \<open>amount\<close> is an
  \<open>option\<close>.
\<close>

fun array_includes :: "int list \<Rightarrow> int \<Rightarrow> bool" where
  "array_includes [] x = False"
| "array_includes (y # ys) x = (if y = x then True else array_includes ys x)"

definition checkPolicy :: "VaultData \<Rightarrow> int \<Rightarrow> int \<Rightarrow> int option \<Rightarrow> PolicyCheckResult" where
  "checkPolicy vault actionType nowMs amount =
     (let policy = vd_policy vault in
      if nowMs \<ge> expiresAt policy then \<lparr> allowed = False, reason = PolicyExpired \<rparr>
      else if txCount vault > 0 \<and> js_minus nowMs (lastTxTime vault) < cooldownMs policy then
        (let elapsed = js_minus nowMs (lastTxTime vault);
             remaining = js_minus (cooldownMs policy) elapsed
         in \<lparr> allowed = False, reason = CooldownActive remaining \<rparr>)
      else if \<not> array_includes (allowedActions policy) actionType then
        \<lparr> allowed = False, reason = NotWhitelisted actionType \<rparr>
      else (case amount of
              None \<Rightarrow> \<lparr> allowed = True, reason = CheckPassed \<rparr>
            | Some amount \<Rightarrow>
               if amount \<le> 0 then \<lparr> allowed = False, reason = AmountNotPositive \<rparr>
               else if amount > maxPerTx policy then
                 \<lparr> allowed = False, reason = ExceedsPerTx amount (maxPerTx policy) \<rparr>
               else (let remainingBudget = maxBudget policy - totalSpent vault in
                 if amount > remainingBudget then
                   \<lparr> allowed = False, reason = ExceedsBudget amount remainingBudget \<rparr>
                 else if amount > balance vault then
                   \<lparr> allowed = False,
                     reason = InsufficientVaultBalance (balance vault) amount \<rparr>
                 else \<lparr> allowed = True, reason = CheckPassed \<rparr>)))"

section \<open>The ordered checks as the specification lists them\<close>

text \<open>
  The specification lists nine checks of a delegated withdrawal, in order, each with its
  failure kind, and reads them over the unbounded integers. \<open>enforcement_checks\<close> is
  that list, written from the specification and not from the code: each entry is the
  condition that must hold and the failure reported when it does not. The failure kinds
  are the abort codes of the module: ZeroAmount is \<open>E_ZERO_AMOUNT\<close>,
  InvalidCapability is \<open>E_INVALID_CAP\<close>, Expired is \<open>E_EXPIRED\<close>, CooldownActive is
  \<open>E_COOLDOWN\<close>, PerOperationLimitExceeded is \<open>E_PER_TX_EXCEEDED\<close>, BudgetExceeded
  is \<open>E_BUDGET_EXCEEDED\<close>, ActionNotWhitelisted is \<open>E_NOT_WHITELISTED\<close>,
  InsufficientBalance is \<open>E_INSUFFICIENT_BALANCE\<close>. \<open>first_violated\<close> is the failure
  of the earliest entry whose condition does not hold.
\<close>

fun first_violated :: "(bool \<times> 'e) list \<Rightarrow> 'e option" where
  "first_violated [] = None"
| "first_violated ((ok, e) # cs) = (if ok then first_violated cs else Some e)"

definition enforcement_checks ::
  "Vault \<Rightarrow> AgentCap \<Rightarrow> u64 \<Rightarrow> u8 \<Rightarrow> u64 \<Rightarrow> (bool \<times> error) list" where
  "enforcement_checks v cap amount actionTag now =
     [(uint amount > 0, E_ZERO_AMOUNT),
      (agent_cap_vault_id cap = vault_uid v, E_INVALID_CAP),
      (agent_cap_uid cap \<in> set (authorized_caps v), E_INVALID_CAP),
      (uint now < uint (expires_at (policy v)), E_EXPIRED),
      (uint (tx_count v) > 0 \<longrightarrow>
         uint now - uint (last_tx_time v) \<ge> uint (cooldown_ms (policy v)), E_COOLDOWN),
      (uint amount \<le> uint (max_per_tx (policy v)), E_PER_TX_EXCEEDED),
      (uint amount \<le> uint (max_budget (policy v)) - uint (total_spent v), E_BUDGET_EXCEEDED),
      (actionTag \<in> set (allowed_actions (policy v)), E_NOT_WHITELISTED),
      (uint amount \<le> uint (balance_sui v), E_INSUFFICIENT_BALANCE)]"

text \<open>
  The order in which the off-chain pre-check is said to run: expiry, cooldown, action
  whitelist, and, only when an amount is supplied, zero amount, per-transaction cap,
  budget, balance; each with the reason it gives.
\<close>

definition mirror_checks :: "VaultData \<Rightarrow> int \<Rightarrow> int \<Rightarrow> int option \<Rightarrow> (bool \<times> reason) list" where
  "mirror_checks vault actionType nowMs amount =
     [(nowMs < expiresAt (vd_policy vault), PolicyExpired),
      (txCount vault > 0 \<longrightarrow>
         js_minus nowMs (lastTxTime vault) \<ge> cooldownMs (vd_policy vault),
         CooldownActive
           (js_minus (cooldownMs (vd_policy vault)) (js_minus nowMs (lastTxTime vault)))),
      (actionType \<in> set (allowedActions (vd_policy vault)), NotWhitelisted actionType)]
     @ (case amount of
          None \<Rightarrow> []
        | Some a \<Rightarrow>
           [(a > 0, AmountNotPositive),
            (a \<le> maxPerTx (vd_policy vault), ExceedsPerTx a (maxPerTx (vd_policy vault))),
            (a \<le> maxBudget (vd_policy vault) - totalSpent vault,
               ExceedsBudget a (maxBudget (vd_policy vault) - totalSpent vault)),
            (a \<le> balance vault, InsufficientVaultBalance (balance vault) a)])"

section \<open>State invariants\<close>

text \<open>
  \<open>budget_inv\<close> is the invariant the specification states for the spend counter.
  \<open>counters_inv\<close> relates the two counters: every successful delegated withdrawal adds
  one to \<open>tx_count\<close> and at least one unit to \<open>total_spent\<close>, and both start at and
  are reset to zero together.
\<close>

definition budget_inv :: "Vault \<Rightarrow> bool" where
  "budget_inv v = (total_spent v \<le> max_budget (policy v))"

definition counters_inv :: "Vault \<Rightarrow> bool" where
  "counters_inv v = (tx_count v \<le> total_spent v)"

text \<open>
  The times and the count of a vault, and a clock value, that doubles hold exactly:
  none of them is above \<open>2 ^ 53\<close>.
\<close>

definition safe_integers :: "Vault \<Rightarrow> u64 \<Rightarrow> bool" where
  "safe_integers v now =
     (uint now \<le> 2 ^ 53
      \<and> uint (expires_at (policy v)) \<le> 2 ^ 53
      \<and> uint (cooldown_ms (policy v)) \<le> 2 ^ 53
      \<and> uint (last_tx_time v) \<le> 2 ^ 53
      \<and> uint (tx_count v) \<le> 2 ^ 53)"

section \<open>The scenario of the module's tests\<close>

text \<open>
  The constants and the set-up of \<open>agent_vault_tests.move\<close>: a vault holding 10 SUI
  with a budget of 5 SUI, a cap of 1 SUI per transaction, the single allowed action
  \<open>ACTION_SWAP\<close>, a cooldown of 60 seconds and an expiry far in the future. The object
  identifiers, which the test scenario draws fresh, are fixed here.
\<close>

definition OWNER :: address where "OWNER = 0xA"
definition AGENT :: address where "AGENT = 0xB"
definition ONE_SUI :: u64 where "ONE_SUI = 1000000000"
definition TEN_SUI :: u64 where "TEN_SUI = 10000000000"
definition HALF_SUI :: u64 where "HALF_SUI = 500000000"
definition DEFAULT_MAX_BUDGET :: u64 where "DEFAULT_MAX_BUDGET = 5000000000"
definition DEFAULT_MAX_PER_TX :: u64 where "DEFAULT_MAX_PER_TX = 1000000000"
definition DEFAULT_COOLDOWN_MS :: u64 where "DEFAULT_COOLDOWN_MS = 60000"
definition DEFAULT_EXPIRES_AT :: u64 where "DEFAULT_EXPIRES_AT = 999999999999"
definition ACTION_SWAP :: u8 where "ACTION_SWAP = 0"
definition ACTION_LIMIT_ORDER :: u8 where "ACTION_LIMIT_ORDER = 1"

definition VAULT_ID :: ID where "VAULT_ID = 0x1001"
definition OWNER_CAP_ID :: ID where "OWNER_CAP_ID = 0x1002"
definition AGENT_CAP_ID :: ID where "AGENT_CAP_ID = 0x1003"

definition setup_vault :: "Vault \<times> OwnerCap \<times> event list" where
  "setup_vault =
     create_vault TEN_SUI DEFAULT_MAX_BUDGET DEFAULT_MAX_PER_TX [ACTION_SWAP]
       DEFAULT_COOLDOWN_MS DEFAULT_EXPIRES_AT OWNER VAULT_ID OWNER_CAP_ID"

definition test_vault :: Vault where
  "test_vault = fst setup_vault"

definition test_owner_cap :: OwnerCap where
  "test_owner_cap = fst (snd setup_vault)"

definition test_agent_cap :: AgentCap where
  "test_agent_cap = \<lparr> agent_cap_uid = AGENT_CAP_ID, agent_cap_vault_id = VAULT_ID \<rparr>"

text \<open>
  \<open>setup_vault_with_agent\<close> mints the agent capability. The later states: after one
  delegated withdrawal of 1 SUI; after the owner then lowers the budget to 0.5 SUI;
  and, from the vault with its agent, after the owner revokes the capability.
\<close>

definition setup_vault_with_agent :: Vault where
  "setup_vault_with_agent = run_ops test_vault [CreateAgentCap test_owner_cap AGENT AGENT_CAP_ID]"

definition spent_vault :: Vault where
  "spent_vault =
     run_ops setup_vault_with_agent [AgentWithdraw test_agent_cap ONE_SUI ACTION_SWAP 0]"

definition budget_lowered_vault :: Vault where
  "budget_lowered_vault =
     run_ops spent_vault
       [UpdatePolicy test_owner_cap HALF_SUI DEFAULT_MAX_PER_TX [ACTION_SWAP]
          DEFAULT_COOLDOWN_MS DEFAULT_EXPIRES_AT]"

definition revoked_vault :: Vault where
  "revoked_vault = run_ops setup_vault_with_agent [RevokeAgentCap test_owner_cap AGENT_CAP_ID]"


text \<open>
  The boundary cases of the tests of the pre-check put together: 4 SUI of the 5 SUI
  budget are spent in four withdrawals, the last at time 0, and the balance is 1 SUI, so
  that a request of 1 SUI sits exactly on the per-transaction cap, on the remaining
  budget and on the balance, and a request at 60000 ms sits exactly on the cooldown.
\<close>

definition boundary_vault :: Vault where
  "boundary_vault =
     \<lparr> vault_uid = VAULT_ID, owner = OWNER, balance_sui = ONE_SUI,
       policy = \<lparr> max_budget = DEFAULT_MAX_BUDGET, max_per_tx = DEFAULT_MAX_PER_TX,
                  allowed_actions = [ACTION_SWAP], cooldown_ms = DEFAULT_COOLDOWN_MS,
                  expires_at = DEFAULT_EXPIRES_AT \<rparr>,
       authorized_caps = [AGENT_CAP_ID], total_spent = 4000000000,
       last_tx_time = 0, tx_count = 4 \<rparr>"

section \<open>Auxiliary facts\<close>

lemma index_of_from_fst: "fst (index_of_from xs e i) \<longleftrightarrow> e \<in> set xs"
  by (induction xs arbitrary: i) auto

lemma index_of_fst: "fst (index_of xs e) \<longleftrightarrow> e \<in> set xs"
  by (simp add: index_of_def index_of_from_fst)

lemma contains_iff: "contains xs e \<longleftrightarrow> e \<in> set xs"
  by (induction xs) auto

lemma index_of_from_snd:
  "e \<in> set xs \<Longrightarrow> \<exists>k. snd (index_of_from xs e i) = i + k \<and> k < length xs \<and> xs ! k = e \<and>
     take k xs @ drop (Suc k) xs = remove1 e xs"
proof (induction xs arbitrary: i)
  case Nil then show ?case by simp
next
  case (Cons x xs)
  show ?case
  proof (cases "x = e")
    case True then show ?thesis by simp
  next
    case False
    with Cons.prems have m: "e \<in> set xs" by simp
    from Cons.IH[OF m, of "Suc i"] obtain k where
      k: "snd (index_of_from xs e (Suc i)) = Suc i + k" "k < length xs" "xs ! k = e"
         "take k xs @ drop (Suc k) xs = remove1 e xs" by blast
    have "snd (index_of_from (x # xs) e i) = i + Suc k" using False k(1) by simp
    moreover have "Suc k < length (x # xs)" using k(2) by simp
    moreover have "(x # xs) ! Suc k = e" using k(3) by simp
    moreover have "take (Suc k) (x # xs) @ drop (Suc (Suc k)) (x # xs) = remove1 e (x # xs)"
      using False k(4) by simp
    ultimately show ?thesis by blast
  qed
qed

lemma vector_remove_index_of:
  "e \<in> set xs \<Longrightarrow> vector_remove xs (snd (index_of xs e)) = Inr (remove1 e xs, e)"
  using index_of_from_snd[of e xs 0] by (auto simp: vector_remove_def index_of_def)

lemma and_then_simps:
  "and_then (Inl e) f = Inl e" "and_then (Inr x) f = f x"
  by (simp_all add: and_then_def)

lemma u64_add_no_overflow:
  fixes a b m :: u64
  assumes "a \<le> m" "b \<le> m - a"
  shows "unat a + unat b < 2 ^ 64" "a + b \<le> m" "unat (a + b) = unat a + unat b"
proof -
  have 1: "unat (m - a) = unat m - unat a" using assms(1) by (simp add: unat_sub)
  have 2: "unat a \<le> unat m" using assms(1) by (simp add: word_le_nat_alt)
  have 3: "unat b \<le> unat m - unat a" using assms(2) 1 by (simp add: word_le_nat_alt)
  have 4: "unat m < 2 ^ 64" using unsigned_less[of m, where 'a=nat] by simp
  show s: "unat a + unat b < 2 ^ 64" using 2 3 4 by linarith
  then show u: "unat (a + b) = unat a + unat b" by (simp add: unat_add_lem[THEN iffD1])
  show "a + b \<le> m" using u 2 3 by (simp add: word_le_nat_alt)
qed



lemma unat_u64_max: "unat (- 1 :: u64) = 18446744073709551615"
  by (simp add: unsigned_minus_1_eq_mask mask_eq_exp_minus_1)

lemma u64_succ_no_overflow:
  fixes c :: u64
  shows "unat c < 18446744073709551615 \<longleftrightarrow> c \<noteq> - 1"
proof -
  have b: "unat c < 2 ^ 64" using unsigned_less[of c, where 'a=nat] by simp
  have "c = - 1 \<longleftrightarrow> unat c = unat (- 1 :: u64)" by (simp only: word_unat_eq_iff)
  then show ?thesis using b by (simp add: unat_u64_max) linarith
qed

lemma and_then_assert: "and_then (move_assert c e) f = (if c then f () else Inl e)"
  by (simp add: and_then_def move_assert_def)

lemma and_then_sub:
  "and_then (sub_u64 a b) f = (if b \<le> a then f (a - b) else Inl ARITHMETIC_ERROR)"
  by (simp add: and_then_def sub_u64_def)

lemma and_then_add:
  "and_then (add_u64 a b) f = (if unat a + unat b < 2 ^ 64 then f (a + b) else Inl ARITHMETIC_ERROR)"
  by (simp add: and_then_def add_u64_def)

lemma and_then_split:
  "and_then (balance_split s v) f = (if v \<le> s then f (s - v, v) else Inl E_NOT_ENOUGH)"
  by (simp add: and_then_def balance_split_def move_assert_def)

lemma and_then_if_unit:
  "and_then (if c then r else Inr ()) f = (if c then and_then r f else f ())"
  by (simp add: and_then_def)

lemmas agent_withdraw_steps = agent_withdraw_def split_def and_then_simps and_then_assert
  and_then_if_unit and_then_sub index_of_fst contains_iff

lemma agent_withdraw_if:
  "agent_withdraw v cap amount action_type now =
   (if 0 < amount then
    if agent_cap_vault_id cap = vault_uid v then
    if agent_cap_uid cap \<in> set (authorized_caps v) then
    if now < expires_at (policy v) then
    if (0 < tx_count v \<longrightarrow> last_tx_time v \<le> now) then
    if (0 < tx_count v \<longrightarrow> cooldown_ms (policy v) \<le> now - last_tx_time v) then
    if amount \<le> max_per_tx (policy v) then
    if total_spent v \<le> max_budget (policy v) then
    if amount \<le> max_budget (policy v) - total_spent v then
    if action_type \<in> set (allowed_actions (policy v)) then
    if amount \<le> balance_sui v then
    if tx_count v \<noteq> - 1 then
      Inr (v\<lparr>total_spent := total_spent v + amount, last_tx_time := now,
               tx_count := tx_count v + 1, balance_sui := balance_sui v - amount\<rparr>,
              amount,
              [AgentWithdrawal (vault_uid v) (agent_cap_uid cap) amount action_type
                 (total_spent v + amount) (max_budget (policy v) - (total_spent v + amount))
                 (tx_count v + 1) now])
    else Inl ARITHMETIC_ERROR
    else Inl E_INSUFFICIENT_BALANCE
    else Inl E_NOT_WHITELISTED
    else Inl E_BUDGET_EXCEEDED
    else Inl ARITHMETIC_ERROR
    else Inl E_PER_TX_EXCEEDED
    else Inl E_COOLDOWN
    else Inl ARITHMETIC_ERROR
    else Inl E_EXPIRED
    else Inl E_INVALID_CAP
    else Inl E_INVALID_CAP
    else Inl E_ZERO_AMOUNT)"
proof -
  have tail: "and_then (add_u64 (total_spent v) amount) (\<lambda>spent.
     let vault = v\<lparr>total_spent := spent\<rparr>;
         vault = vault\<lparr>last_tx_time := now\<rparr> in
     and_then (add_u64 (tx_count vault) 1) (\<lambda>cnt.
     let vault = vault\<lparr>tx_count := cnt\<rparr> in
     and_then (sub_u64 (max_budget (policy vault)) (total_spent vault)) (\<lambda>remaining_budget.
     let ev = AgentWithdrawal (vault_uid vault) (agent_cap_uid cap) amount action_type
                (total_spent vault) remaining_budget (tx_count vault) now in
     and_then (balance_split (balance_sui vault) amount) (\<lambda>(rest, taken).
     Inr (vault\<lparr>balance_sui := rest\<rparr>, taken, [ev]))))) =
     (if tx_count v \<noteq> - 1 then
      Inr (v\<lparr>total_spent := total_spent v + amount, last_tx_time := now,
               tx_count := tx_count v + 1, balance_sui := balance_sui v - amount\<rparr>,
              amount,
              [AgentWithdrawal (vault_uid v) (agent_cap_uid cap) amount action_type
                 (total_spent v + amount) (max_budget (policy v) - (total_spent v + amount))
                 (tx_count v + 1) now])
      else Inl ARITHMETIC_ERROR)"
    if h: "total_spent v \<le> max_budget (policy v)"
          "amount \<le> max_budget (policy v) - total_spent v"
          "amount \<le> balance_sui v"
    using u64_add_no_overflow[OF h(1) h(2)] h(3)
    by (simp add: and_then_add and_then_sub and_then_split Let_def u64_succ_no_overflow)
  show ?thesis
  proof (cases "0 < amount")
    case False
    then show ?thesis by (simp add: agent_withdraw_steps)
  next
    case c0: True
    show ?thesis
    proof (cases "agent_cap_vault_id cap = vault_uid v")
      case False
      then show ?thesis using c0 by (simp add: agent_withdraw_steps)
    next
      case c1: True
      show ?thesis
      proof (cases "agent_cap_uid cap \<in> set (authorized_caps v)")
        case False
        then show ?thesis using c0 c1 by (simp add: agent_withdraw_steps)
      next
        case c2: True
        show ?thesis
        proof (cases "now < expires_at (policy v)")
          case False
          then show ?thesis using c0 c1 c2 by (simp add: agent_withdraw_steps)
        next
          case c3: True
          show ?thesis
          proof (cases "0 < tx_count v \<longrightarrow> last_tx_time v \<le> now")
            case False
            then show ?thesis using c0 c1 c2 c3 by (simp add: agent_withdraw_steps)
          next
            case c4: True
            show ?thesis
            proof (cases "0 < tx_count v \<longrightarrow> cooldown_ms (policy v) \<le> now - last_tx_time v")
              case False
              then show ?thesis using c0 c1 c2 c3 c4 by (simp add: agent_withdraw_steps)
            next
              case c5: True
              show ?thesis
              proof (cases "amount \<le> max_per_tx (policy v)")
                case False
                then show ?thesis using c0 c1 c2 c3 c4 c5 by (simp add: agent_withdraw_steps)
              next
                case c6: True
                show ?thesis
                proof (cases "total_spent v \<le> max_budget (policy v)")
                  case False
                  then show ?thesis using c0 c1 c2 c3 c4 c5 c6 by (simp add: agent_withdraw_steps)
                next
                  case c7: True
                  show ?thesis
                  proof (cases "amount \<le> max_budget (policy v) - total_spent v")
                    case False
                    then show ?thesis using c0 c1 c2 c3 c4 c5 c6 c7 by (simp add: agent_withdraw_steps)
                  next
                    case c8: True
                    show ?thesis
                    proof (cases "action_type \<in> set (allowed_actions (policy v))")
                      case False
                      then show ?thesis using c0 c1 c2 c3 c4 c5 c6 c7 c8 by (simp add: agent_withdraw_steps)
                    next
                      case c9: True
                      show ?thesis
                      proof (cases "amount \<le> balance_sui v")
                        case False
                        then show ?thesis using c0 c1 c2 c3 c4 c5 c6 c7 c8 c9 by (simp add: agent_withdraw_steps)
                      next
                        case c10: True
                        show ?thesis
                          using c0 c1 c2 c3 c4 c5 c6 c7 c8 c9 c10 tail[OF c7 c8 c10]
                          by (simp add: agent_withdraw_steps)
                      qed
                    qed
                  qed
                qed
              qed
            qed
          qed
        qed
      qed
    qed
  qed
qed



lemmas scenario_consts = OWNER_def AGENT_def ONE_SUI_def TEN_SUI_def HALF_SUI_def
  DEFAULT_MAX_BUDGET_def DEFAULT_MAX_PER_TX_def DEFAULT_COOLDOWN_MS_def DEFAULT_EXPIRES_AT_def
  ACTION_SWAP_def ACTION_LIMIT_ORDER_def VAULT_ID_def OWNER_CAP_ID_def AGENT_CAP_ID_def

lemma test_vault_eq:
  "test_vault = \<lparr> vault_uid = 0x1001, owner = 0xA, balance_sui = 10000000000,
      policy = \<lparr> max_budget = 5000000000, max_per_tx = 1000000000, allowed_actions = [0],
                 cooldown_ms = 60000, expires_at = 999999999999 \<rparr>,
      authorized_caps = [], total_spent = 0, last_tx_time = 0, tx_count = 0 \<rparr>"
  by (simp add: test_vault_def setup_vault_def create_vault_def scenario_consts Let_def)

lemma test_owner_cap_eq:
  "test_owner_cap = \<lparr> owner_cap_uid = 0x1002, owner_cap_vault_id = 0x1001 \<rparr>"
  by (simp add: test_owner_cap_def setup_vault_def create_vault_def scenario_consts Let_def)

lemma test_agent_cap_eq:
  "test_agent_cap = \<lparr> agent_cap_uid = 0x1003, agent_cap_vault_id = 0x1001 \<rparr>"
  by (simp add: test_agent_cap_def scenario_consts)

lemma setup_vault_with_agent_eq:
  "setup_vault_with_agent = \<lparr> vault_uid = 0x1001, owner = 0xA, balance_sui = 10000000000,
      policy = \<lparr> max_budget = 5000000000, max_per_tx = 1000000000, allowed_actions = [0],
                 cooldown_ms = 60000, expires_at = 999999999999 \<rparr>,
      authorized_caps = [0x1003], total_spent = 0, last_tx_time = 0, tx_count = 0 \<rparr>"
  by (simp add: setup_vault_with_agent_def test_vault_eq test_owner_cap_eq scenario_consts
      create_agent_cap_def and_then_assert and_then_simps commit_def push_back_def Let_def)

lemma spent_vault_eq:
  "spent_vault = \<lparr> vault_uid = 0x1001, owner = 0xA, balance_sui = 9000000000,
      policy = \<lparr> max_budget = 5000000000, max_per_tx = 1000000000, allowed_actions = [0],
                 cooldown_ms = 60000, expires_at = 999999999999 \<rparr>,
      authorized_caps = [0x1003], total_spent = 1000000000, last_tx_time = 0, tx_count = 1 \<rparr>"
  by (simp add: spent_vault_def setup_vault_with_agent_eq test_agent_cap_eq scenario_consts
      agent_withdraw_if and_then_simps commit_def)

lemma budget_lowered_vault_eq:
  "budget_lowered_vault = \<lparr> vault_uid = 0x1001, owner = 0xA, balance_sui = 9000000000,
      policy = \<lparr> max_budget = 500000000, max_per_tx = 1000000000, allowed_actions = [0],
                 cooldown_ms = 60000, expires_at = 999999999999 \<rparr>,
      authorized_caps = [0x1003], total_spent = 1000000000, last_tx_time = 0, tx_count = 1 \<rparr>"
  by (simp add: budget_lowered_vault_def spent_vault_eq test_owner_cap_eq scenario_consts
      update_policy_def and_then_assert and_then_simps commit_def)

lemma revoked_vault_eq:
  "revoked_vault = \<lparr> vault_uid = 0x1001, owner = 0xA, balance_sui = 10000000000,
      policy = \<lparr> max_budget = 5000000000, max_per_tx = 1000000000, allowed_actions = [0],
                 cooldown_ms = 60000, expires_at = 999999999999 \<rparr>,
      authorized_caps = [], total_spent = 0, last_tx_time = 0, tx_count = 0 \<rparr>"
  by (simp add: revoked_vault_def setup_vault_with_agent_eq test_owner_cap_eq scenario_consts
      revoke_agent_cap_def index_of_def vector_remove_def and_then_assert and_then_simps commit_def)


lemma uint_pos_iff: "0 < uint (x::'a::len word) \<longleftrightarrow> 0 < x"
  by (simp add: word_less_def)

lemma uint_lt_iff: "uint x < uint y \<longleftrightarrow> x < y"
  by (simp add: word_less_def)

lemma uint_le_iff: "uint x \<le> uint y \<longleftrightarrow> x \<le> y"
  by (simp add: word_le_def)

lemma check5_iff:
  fixes tx last now cd :: u64
  shows "(0 < uint tx \<longrightarrow> uint cd \<le> uint now - uint last) \<longleftrightarrow>
         (0 < tx \<longrightarrow> last \<le> now) \<and> (0 < tx \<longrightarrow> cd \<le> now - last)"
proof (cases "last \<le> now")
  case True
  then have "uint (now - last) = uint now - uint last"
    by (simp add: uint_sub_lem[symmetric] word_le_def)
  then show ?thesis using True by (simp add: word_le_def word_less_def)
next
  case False
  then have "uint now - uint last < 0" by (simp add: word_le_def)
  moreover have "0 \<le> uint cd" by simp
  ultimately have "\<not> uint cd \<le> uint now - uint last" by linarith
  then show ?thesis using False by (auto simp: word_less_def)
qed

lemma check7_iff:
  fixes amount mb ts :: u64
  shows "uint amount \<le> uint mb - uint ts \<longleftrightarrow> ts \<le> mb \<and> amount \<le> mb - ts"
proof (cases "ts \<le> mb")
  case True
  then have "uint (mb - ts) = uint mb - uint ts"
    by (simp add: uint_sub_lem[symmetric] word_le_def)
  then show ?thesis using True by (simp add: word_le_def)
next
  case False
  then have "uint mb - uint ts < 0" by (simp add: word_le_def)
  moreover have "0 \<le> uint amount" by simp
  ultimately have "\<not> uint amount \<le> uint mb - uint ts" by linarith
  then show ?thesis using False by simp
qed

lemma first_violated_enforcement:
  "first_violated (enforcement_checks v cap amount a now) =
   (if \<not> 0 < amount then Some E_ZERO_AMOUNT
    else if agent_cap_vault_id cap \<noteq> vault_uid v then Some E_INVALID_CAP
    else if agent_cap_uid cap \<notin> set (authorized_caps v) then Some E_INVALID_CAP
    else if \<not> now < expires_at (policy v) then Some E_EXPIRED
    else if \<not> ((0 < tx_count v \<longrightarrow> last_tx_time v \<le> now) \<and>
                (0 < tx_count v \<longrightarrow> cooldown_ms (policy v) \<le> now - last_tx_time v))
      then Some E_COOLDOWN
    else if \<not> amount \<le> max_per_tx (policy v) then Some E_PER_TX_EXCEEDED
    else if \<not> (total_spent v \<le> max_budget (policy v) \<and>
                amount \<le> max_budget (policy v) - total_spent v) then Some E_BUDGET_EXCEEDED
    else if a \<notin> set (allowed_actions (policy v)) then Some E_NOT_WHITELISTED
    else if \<not> amount \<le> balance_sui v then Some E_INSUFFICIENT_BALANCE
    else None)"
  unfolding enforcement_checks_def first_violated.simps check5_iff check7_iff
    uint_pos_iff uint_lt_iff uint_le_iff
  by simp




lemmas agent_withdraw_spec_steps = first_violated_enforcement agent_withdraw_if not_le not_less

lemma agent_withdraw_spec:
  "agent_withdraw v cap amount a now =
   (case first_violated (enforcement_checks v cap amount a now) of
      Some e \<Rightarrow>
        Inl (if (e = E_COOLDOWN \<and> now < last_tx_time v) \<or>
                (e = E_BUDGET_EXCEEDED \<and> max_budget (policy v) < total_spent v)
             then ARITHMETIC_ERROR else e)
    | None \<Rightarrow>
        if tx_count v = - 1 then Inl ARITHMETIC_ERROR
        else Inr (v\<lparr>total_spent := total_spent v + amount, last_tx_time := now,
                    tx_count := tx_count v + 1, balance_sui := balance_sui v - amount\<rparr>,
                  amount,
                  [AgentWithdrawal (vault_uid v) (agent_cap_uid cap) amount a
                     (total_spent v + amount) (max_budget (policy v) - (total_spent v + amount))
                     (tx_count v + 1) now]))"
proof -
  show ?thesis
  proof (cases "0 < amount")
    case False
    then show ?thesis by (simp add: agent_withdraw_spec_steps)
  next
    case c0: True
    show ?thesis
    proof (cases "agent_cap_vault_id cap = vault_uid v")
      case False
      then show ?thesis using c0 by (simp add: agent_withdraw_spec_steps)
    next
      case c1: True
      show ?thesis
      proof (cases "agent_cap_uid cap \<in> set (authorized_caps v)")
        case False
        then show ?thesis using c0 c1 by (simp add: agent_withdraw_spec_steps)
      next
        case c2: True
        show ?thesis
        proof (cases "now < expires_at (policy v)")
          case False
          then show ?thesis using c0 c1 c2 by (simp add: agent_withdraw_spec_steps)
        next
          case c3: True
          show ?thesis
          proof (cases "0 < tx_count v \<longrightarrow> last_tx_time v \<le> now")
            case False
            then show ?thesis using c0 c1 c2 c3 by (simp add: agent_withdraw_spec_steps)
          next
            case c4: True
            show ?thesis
            proof (cases "0 < tx_count v \<longrightarrow> cooldown_ms (policy v) \<le> now - last_tx_time v")
              case False
              then show ?thesis using c0 c1 c2 c3 c4 by (simp add: agent_withdraw_spec_steps)
            next
              case c5: True
              show ?thesis
              proof (cases "amount \<le> max_per_tx (policy v)")
                case False
                then show ?thesis using c0 c1 c2 c3 c4 c5 by (simp add: agent_withdraw_spec_steps)
              next
                case c6: True
                show ?thesis
                proof (cases "total_spent v \<le> max_budget (policy v)")
                  case False
                  then show ?thesis using c0 c1 c2 c3 c4 c5 c6 by (simp add: agent_withdraw_spec_steps)
                next
                  case c7: True
                  show ?thesis
                  proof (cases "amount \<le> max_budget (policy v) - total_spent v")
                    case False
                    then show ?thesis using c0 c1 c2 c3 c4 c5 c6 c7 by (simp add: agent_withdraw_spec_steps)
                  next
                    case c8: True
                    show ?thesis
                    proof (cases "a \<in> set (allowed_actions (policy v))")
                      case False
                      then show ?thesis using c0 c1 c2 c3 c4 c5 c6 c7 c8 by (simp add: agent_withdraw_spec_steps)
                    next
                      case c9: True
                      show ?thesis
                      proof (cases "amount \<le> balance_sui v")
                        case False
                        then show ?thesis using c0 c1 c2 c3 c4 c5 c6 c7 c8 c9 by (simp add: agent_withdraw_spec_steps)
                      next
                        case c10: True
                        show ?thesis
                          using c0 c1 c2 c3 c4 c5 c6 c7 c8 c9 c10
                          by (simp add: agent_withdraw_spec_steps)
                      qed
                    qed
                  qed
                qed
              qed
            qed
          qed
        qed
      qed
    qed
  qed
qed

lemma counters_no_overflow:
  assumes "counters_inv v" "first_violated (enforcement_checks v cap amount a now) = None"
  shows "tx_count v \<noteq> - 1"
proof -
  have pos: "0 < amount" and b: "total_spent v \<le> max_budget (policy v)"
    and le: "amount \<le> max_budget (policy v) - total_spent v"
    using assms(2) unfolding first_violated_enforcement by (simp_all split: if_splits)
  have 1: "unat (tx_count v) \<le> unat (total_spent v)"
    using assms(1) by (simp add: counters_inv_def word_le_nat_alt)
  have 2: "0 < unat amount" using pos by (simp add: word_less_nat_alt)
  have 3: "unat (total_spent v) + unat amount < 2 ^ 64" by (rule u64_add_no_overflow(1)[OF b le])
  have "unat (tx_count v) < 18446744073709551615" using 1 2 3 by simp
  then show ?thesis by (simp add: u64_succ_no_overflow)
qed

section \<open>Doubles and the snapshot of a vault\<close>

lemma round_double_safe: "\<bar>x\<bar> \<le> 2 ^ 53 \<Longrightarrow> round_double x = x"
  by (simp add: round_double_def)

lemma Number_safe: "uint x \<le> 2 ^ 53 \<Longrightarrow> Number x = uint x"
  by (simp add: Number_def round_double_def)

lemma js_minus_safe:
  assumes "0 \<le> a" "a \<le> 2 ^ 53" "0 \<le> b" "b \<le> 2 ^ 53"
  shows "js_minus a b = a - b"
proof -
  have "\<bar>a - b\<bar> \<le> 2 ^ 53" using assms by simp
  then show ?thesis by (simp add: js_minus_def round_double_safe)
qed

lemma Number_small [simp]:
  "Number 0 = 0" "Number 60000 = 60000" "Number 60001 = 60001"
  "Number 999999999999 = 999999999999" "Number 9007199254740992 = 9007199254740992"
  by (simp_all add: Number_def round_double_def)




lemma parseVaultData_safe:
  assumes "safe_integers v now"
  shows "parseVaultData oid v =
     \<lparr> vd_id = oid, vd_owner = owner v, balance = uint (balance_sui v),
       vd_policy = \<lparr> maxBudget = uint (max_budget (policy v)),
                     maxPerTx = uint (max_per_tx (policy v)),
                     allowedActions = map uint (allowed_actions (policy v)),
                     cooldownMs = uint (cooldown_ms (policy v)),
                     expiresAt = uint (expires_at (policy v)) \<rparr>,
       authorizedCaps = authorized_caps v, totalSpent = uint (total_spent v),
       lastTxTime = uint (last_tx_time v), txCount = uint (tx_count v) \<rparr>"
    and "Number now = uint now"
    and "js_minus (uint now) (uint (last_tx_time v)) = uint now - uint (last_tx_time v)"
proof -
  show "parseVaultData oid v =
     \<lparr> vd_id = oid, vd_owner = owner v, balance = uint (balance_sui v),
       vd_policy = \<lparr> maxBudget = uint (max_budget (policy v)),
                     maxPerTx = uint (max_per_tx (policy v)),
                     allowedActions = map uint (allowed_actions (policy v)),
                     cooldownMs = uint (cooldown_ms (policy v)),
                     expiresAt = uint (expires_at (policy v)) \<rparr>,
       authorizedCaps = authorized_caps v, totalSpent = uint (total_spent v),
       lastTxTime = uint (last_tx_time v), txCount = uint (tx_count v) \<rparr>"
    using assms by (simp add: safe_integers_def parseVaultData_def parsePolicy_def Number_safe)
  show "Number now = uint now" using assms by (simp add: safe_integers_def Number_safe)
  show "js_minus (uint now) (uint (last_tx_time v)) = uint now - uint (last_tx_time v)"
    using assms by (intro js_minus_safe) (simp_all add: safe_integers_def)
qed

section \<open>Order of the checks of a delegated withdrawal\<close>

text \<open>
  Claim C1, at the input where the code departs from it. On the vault of the test
  scenario after one withdrawal of 1 SUI and the owner's update of the budget to
  0.5 SUI, a request of one unit for an action that is not whitelisted, after the
  cooldown, violates the budget check and the whitelist check of the specification's
  list, and the budget check is the earlier of the two. \<open>agent_withdraw\<close> does not
  abort with \<open>E_BUDGET_EXCEEDED\<close>: the subtraction inside its budget assert underflows
  and the call aborts with the runtime's arithmetic error. The pre-check, on the
  snapshot of the same vault and for the whitelisted action, reports the budget.
\<close>

theorem C1_budget_check_underflows:
  "first_violated (enforcement_checks budget_lowered_vault test_agent_cap 1 ACTION_LIMIT_ORDER 60001)
     = Some E_BUDGET_EXCEEDED
   \<and> agent_withdraw budget_lowered_vault test_agent_cap 1 ACTION_LIMIT_ORDER 60001
     = Inl ARITHMETIC_ERROR
   \<and> checkPolicy (parseVaultData VAULT_ID budget_lowered_vault) (uint ACTION_SWAP)
        (Number 60001) (Some 1)
     = \<lparr> allowed = False, reason = ExceedsBudget 1 (- 500000000) \<rparr>"
proof -
  have "first_violated
      (enforcement_checks budget_lowered_vault test_agent_cap 1 ACTION_LIMIT_ORDER 60001)
     = Some E_BUDGET_EXCEEDED"
    by (simp add: enforcement_checks_def budget_lowered_vault_eq test_agent_cap_eq
        scenario_consts)
  moreover have "agent_withdraw budget_lowered_vault test_agent_cap 1 ACTION_LIMIT_ORDER 60001
     = Inl ARITHMETIC_ERROR"
    by (simp add: agent_withdraw_if budget_lowered_vault_eq test_agent_cap_eq scenario_consts)
  moreover have "checkPolicy (parseVaultData VAULT_ID budget_lowered_vault) (uint ACTION_SWAP)
        (Number 60001) (Some 1)
     = \<lparr> allowed = False, reason = ExceedsBudget 1 (- 500000000) \<rparr>"
    by (simp add: checkPolicy_def parseVaultData_def parsePolicy_def budget_lowered_vault_eq
        scenario_consts Let_def js_minus_def round_double_def)
  ultimately show ?thesis by (simp only: simp_thms)
qed

theorem C1_budget_check_underflows_witness:
  "0 < uint (tx_count budget_lowered_vault)
   \<and> uint (cooldown_ms (policy budget_lowered_vault))
       \<le> uint (60001 :: u64) - uint (last_tx_time budget_lowered_vault)
   \<and> uint (max_budget (policy budget_lowered_vault)) < uint (total_spent budget_lowered_vault)
   \<and> agent_withdraw budget_lowered_vault test_agent_cap 1 ACTION_LIMIT_ORDER 60001
     = Inl ARITHMETIC_ERROR"
  using C1_budget_check_underflows
  by (simp add: budget_lowered_vault_eq scenario_consts)

section \<open>The pre-check against the authoritative path\<close>


lemma uint_mem_map: "uint a \<in> uint ` set acts \<longleftrightarrow> a \<in> set acts"
proof -
  have "inj (uint :: 'a word \<Rightarrow> int)"
    by (simp add: inj_on_def word_uint_eq_iff[symmetric])
  then show ?thesis by (simp add: inj_image_mem_iff)
qed

lemma array_includes_iff: "array_includes xs x \<longleftrightarrow> x \<in> set xs"
  by (induction xs) auto

lemma checkPolicy_mirror_checks:
  "checkPolicy vault actionType nowMs amount =
     (case first_violated (mirror_checks vault actionType nowMs amount) of
        None \<Rightarrow> \<lparr> allowed = True, reason = CheckPassed \<rparr>
      | Some r \<Rightarrow> \<lparr> allowed = False, reason = r \<rparr>)"
  by (cases amount)
     (simp_all add: checkPolicy_def mirror_checks_def Let_def array_includes_iff not_le not_less)





lemma agent_withdraw_success_iff:
  assumes "counters_inv v"
  shows "(\<exists>r. agent_withdraw v cap amount a now = Inr r) \<longleftrightarrow>
         first_violated (enforcement_checks v cap amount a now) = None"
proof (cases "first_violated (enforcement_checks v cap amount a now)")
  case None
  then have "tx_count v \<noteq> - 1" using counters_no_overflow[OF assms] by blast
  then show ?thesis using None by (simp add: agent_withdraw_spec)
next
  case (Some e)
  then show ?thesis by (simp add: agent_withdraw_spec)
qed




section \<open>Order of the checks of the pre-check\<close>

text \<open>
  Claim C9. \<open>checkPolicy\<close> runs its checks in the order of \<open>mirror_checks\<close>: expiry,
  cooldown, action whitelist and then, only when an amount is supplied, zero amount,
  per-transaction cap, budget and balance; it denies with the reason of the first check
  that fails and allows when none does. The order differs from that of
  \<open>agent_withdraw\<close>: for a zero amount and an action that is not whitelisted, on a
  vault that is not expired and not in cooldown and whose times and count the snapshot
  holds exactly, the pre-check names the whitelist while \<open>agent_withdraw\<close> aborts with
  \<open>E_ZERO_AMOUNT\<close>, the failure of the earliest violated check of the specification's
  list.
\<close>

theorem C9_mirror_order:
  "checkPolicy vault actionType nowMs amount =
     (case first_violated (mirror_checks vault actionType nowMs amount) of
        None \<Rightarrow> \<lparr> allowed = True, reason = CheckPassed \<rparr>
      | Some r \<Rightarrow> \<lparr> allowed = False, reason = r \<rparr>)
   \<and> (safe_integers v now \<and> now < expires_at (policy v)
        \<and> (tx_count v = 0 \<or>
            (last_tx_time v \<le> now \<and> cooldown_ms (policy v) \<le> now - last_tx_time v))
        \<and> a \<notin> set (allowed_actions (policy v)) \<longrightarrow>
        checkPolicy (parseVaultData (vault_uid v) v) (uint a) (Number now) (Some (uint (0::u64)))
          = \<lparr> allowed = False, reason = NotWhitelisted (uint a) \<rparr>
        \<and> agent_withdraw v cap 0 a now = Inl E_ZERO_AMOUNT
        \<and> first_violated (enforcement_checks v cap 0 a now) = Some E_ZERO_AMOUNT)"
proof (intro conjI impI)
  show "checkPolicy vault actionType nowMs amount =
     (case first_violated (mirror_checks vault actionType nowMs amount) of
        None \<Rightarrow> \<lparr> allowed = True, reason = CheckPassed \<rparr>
      | Some r \<Rightarrow> \<lparr> allowed = False, reason = r \<rparr>)"
    by (rule checkPolicy_mirror_checks)
next
  assume h: "safe_integers v now \<and> now < expires_at (policy v)
        \<and> (tx_count v = 0 \<or>
            (last_tx_time v \<le> now \<and> cooldown_ms (policy v) \<le> now - last_tx_time v))
        \<and> a \<notin> set (allowed_actions (policy v))"
  then have s: "safe_integers v now" by simp
  have e: "uint now < uint (expires_at (policy v))" using h by (simp add: word_less_def)
  have c: "0 < uint (tx_count v) \<longrightarrow>
           uint (cooldown_ms (policy v)) \<le> uint now - uint (last_tx_time v)"
    using h by (auto simp: check5_iff word_less_def)
  have w: "uint a \<notin> uint ` set (allowed_actions (policy v))" using h by (simp add: uint_mem_map)
  show "checkPolicy (parseVaultData (vault_uid v) v) (uint a) (Number now) (Some (uint (0::u64)))
          = \<lparr> allowed = False, reason = NotWhitelisted (uint a) \<rparr>"
    unfolding checkPolicy_mirror_checks mirror_checks_def parseVaultData_safe(1,2)[OF s]
    using e c w by (simp add: parseVaultData_safe(3)[OF s])
  show "agent_withdraw v cap 0 a now = Inl E_ZERO_AMOUNT"
    by (simp add: agent_withdraw_if)
  show "first_violated (enforcement_checks v cap 0 a now) = Some E_ZERO_AMOUNT"
    by (simp add: enforcement_checks_def)
qed

text \<open>
  The theorem at the vault of the test scenario: a zero amount for the action
  \<open>ACTION_LIMIT_ORDER\<close>, which is not whitelisted.
\<close>

theorem C9_mirror_order_witness:
  "safe_integers setup_vault_with_agent 0
   \<and> (0::u64) < expires_at (policy setup_vault_with_agent)
   \<and> (tx_count setup_vault_with_agent = 0 \<or>
       (last_tx_time setup_vault_with_agent \<le> 0
        \<and> cooldown_ms (policy setup_vault_with_agent) \<le> 0 - last_tx_time setup_vault_with_agent))
   \<and> ACTION_LIMIT_ORDER \<notin> set (allowed_actions (policy setup_vault_with_agent))
   \<and> checkPolicy (parseVaultData (vault_uid setup_vault_with_agent) setup_vault_with_agent)
        (uint ACTION_LIMIT_ORDER) (Number 0) (Some (uint (0::u64)))
      = \<lparr> allowed = False, reason = NotWhitelisted (uint ACTION_LIMIT_ORDER) \<rparr>
   \<and> agent_withdraw setup_vault_with_agent test_agent_cap 0 ACTION_LIMIT_ORDER 0
      = Inl E_ZERO_AMOUNT"
proof -
  have h: "safe_integers setup_vault_with_agent 0
   \<and> (0::u64) < expires_at (policy setup_vault_with_agent)
   \<and> (tx_count setup_vault_with_agent = 0 \<or>
       (last_tx_time setup_vault_with_agent \<le> 0
        \<and> cooldown_ms (policy setup_vault_with_agent) \<le> 0 - last_tx_time setup_vault_with_agent))
   \<and> ACTION_LIMIT_ORDER \<notin> set (allowed_actions (policy setup_vault_with_agent))"
    by (simp add: safe_integers_def setup_vault_with_agent_eq scenario_consts)
  have r: "checkPolicy (parseVaultData (vault_uid setup_vault_with_agent) setup_vault_with_agent)
        (uint ACTION_LIMIT_ORDER) (Number 0) (Some (uint (0::u64)))
      = \<lparr> allowed = False, reason = NotWhitelisted (uint ACTION_LIMIT_ORDER) \<rparr>
     \<and> agent_withdraw setup_vault_with_agent test_agent_cap 0 ACTION_LIMIT_ORDER 0
      = Inl E_ZERO_AMOUNT
     \<and> first_violated (enforcement_checks setup_vault_with_agent test_agent_cap 0
          ACTION_LIMIT_ORDER 0) = Some E_ZERO_AMOUNT"
    using h C9_mirror_order[of _ _ _ _ setup_vault_with_agent 0 ACTION_LIMIT_ORDER test_agent_cap,
        THEN conjunct2]
    by (rule rev_mp)
  show ?thesis using h r by (simp only: simp_thms)
qed

section \<open>The state transition of a delegated withdrawal\<close>

lemma agent_withdraw_Inr_D:
  assumes "agent_withdraw v cap amount a now = Inr r"
  shows "first_violated (enforcement_checks v cap amount a now) = None"
    and "tx_count v \<noteq> - 1"
    and "r = (v\<lparr>total_spent := total_spent v + amount, last_tx_time := now,
             tx_count := tx_count v + 1, balance_sui := balance_sui v - amount\<rparr>,
          amount,
          [AgentWithdrawal (vault_uid v) (agent_cap_uid cap) amount a
             (total_spent v + amount) (max_budget (policy v) - (total_spent v + amount))
             (tx_count v + 1) now])"
proof -
  show n: "first_violated (enforcement_checks v cap amount a now) = None"
  proof (cases "first_violated (enforcement_checks v cap amount a now)")
    case None then show ?thesis .
  next
    case (Some e)
    with assms show ?thesis by (simp add: agent_withdraw_spec)
  qed
  show t: "tx_count v \<noteq> - 1"
  proof
    assume "tx_count v = - 1"
    with n assms show False by (simp add: agent_withdraw_spec)
  qed
  have "agent_withdraw v cap amount a now =
     Inr (v\<lparr>total_spent := total_spent v + amount, last_tx_time := now,
             tx_count := tx_count v + 1, balance_sui := balance_sui v - amount\<rparr>,
          amount,
          [AgentWithdrawal (vault_uid v) (agent_cap_uid cap) amount a
             (total_spent v + amount) (max_budget (policy v) - (total_spent v + amount))
             (tx_count v + 1) now])"
    using n t by (simp add: agent_withdraw_spec)
  with assms show "r = (v\<lparr>total_spent := total_spent v + amount, last_tx_time := now,
             tx_count := tx_count v + 1, balance_sui := balance_sui v - amount\<rparr>,
          amount,
          [AgentWithdrawal (vault_uid v) (agent_cap_uid cap) amount a
             (total_spent v + amount) (max_budget (policy v) - (total_spent v + amount))
             (tx_count v + 1) now])"
    by (simp only: sum.inject)
qed

lemma agent_withdraw_Inr_I:
  assumes "first_violated (enforcement_checks v cap amount a now) = None" "tx_count v \<noteq> - 1"
  shows "agent_withdraw v cap amount a now =
     Inr (v\<lparr>total_spent := total_spent v + amount, last_tx_time := now,
             tx_count := tx_count v + 1, balance_sui := balance_sui v - amount\<rparr>,
          amount,
          [AgentWithdrawal (vault_uid v) (agent_cap_uid cap) amount a
             (total_spent v + amount) (max_budget (policy v) - (total_spent v + amount))
             (tx_count v + 1) now])"
  using assms by (simp add: agent_withdraw_spec)

lemma passing_arith:
  assumes "first_violated (enforcement_checks v cap amount a now) = None" "tx_count v \<noteq> - 1"
  shows "uint (balance_sui v - amount) = uint (balance_sui v) - uint amount"
    and "uint (total_spent v + amount) = uint (total_spent v) + uint amount"
    and "uint (tx_count v + 1) = uint (tx_count v) + 1"
proof -
  have b: "total_spent v \<le> max_budget (policy v)"
    and le: "amount \<le> max_budget (policy v) - total_spent v"
    and bal: "amount \<le> balance_sui v"
    using assms(1) unfolding first_violated_enforcement by (simp_all split: if_splits)
  show "uint (balance_sui v - amount) = uint (balance_sui v) - uint amount"
    using bal by (simp add: uint_sub_lem[symmetric] word_le_def)
  show "uint (total_spent v + amount) = uint (total_spent v) + uint amount"
    unfolding uint_nat using u64_add_no_overflow(3)[OF b le] by (simp only: of_nat_add)
  have "unat (tx_count v) + unat (1::u64) < 2 ^ 64"
    using assms(2) by (simp add: u64_succ_no_overflow)
  then have "unat (tx_count v + 1) = unat (tx_count v) + unat (1::u64)"
    by (intro unat_add_lem[THEN iffD1]) simp
  then have "int (unat (tx_count v + 1)) = int (unat (tx_count v)) + 1"
    by simp
  then show "uint (tx_count v + 1) = uint (tx_count v) + 1"
    by (simp only: uint_nat)
qed

text \<open>
  Claim C4. When all nine checks of the specification's list pass (on a vault whose
  counters are those of a reachable vault), \<open>agent_withdraw\<close> succeeds and returns
  the vault with \<open>total_spent\<close> raised by the amount, \<open>last_tx_time\<close> set to
  \<open>now\<close>, \<open>tx_count\<close> raised by one and the balance lowered by the amount, the
  amount as the coin, and one \<open>AgentWithdrawal\<close> event. Whenever it succeeds, the
  nine checks pass, the coin is the requested amount, the three sums hold over the
  integers (nothing wraps around), and the identifier, the owner, the policy and the
  capability registry are unchanged. Whenever it aborts, the vault on the ledger is
  unchanged.
\<close>

theorem C4_withdraw_transition:
  "(counters_inv v \<and> first_violated (enforcement_checks v cap amount a now) = None \<longrightarrow>
      agent_withdraw v cap amount a now =
        Inr (v\<lparr>total_spent := total_spent v + amount, last_tx_time := now,
                tx_count := tx_count v + 1, balance_sui := balance_sui v - amount\<rparr>,
             amount,
             [AgentWithdrawal (vault_uid v) (agent_cap_uid cap) amount a
                (total_spent v + amount) (max_budget (policy v) - (total_spent v + amount))
                (tx_count v + 1) now]))
   \<and> (\<forall>v' c evs. agent_withdraw v cap amount a now = Inr (v', c, evs) \<longrightarrow>
        first_violated (enforcement_checks v cap amount a now) = None
        \<and> c = amount
        \<and> uint (balance_sui v') = uint (balance_sui v) - uint amount
        \<and> uint (total_spent v') = uint (total_spent v) + uint amount
        \<and> uint (tx_count v') = uint (tx_count v) + 1
        \<and> last_tx_time v' = now
        \<and> vault_uid v' = vault_uid v \<and> owner v' = owner v \<and> policy v' = policy v
        \<and> authorized_caps v' = authorized_caps v)
   \<and> (\<forall>e. agent_withdraw v cap amount a now = Inl e \<longrightarrow>
        run_ops v [AgentWithdraw cap amount a now] = v)"
proof (intro conjI allI impI)
  assume h: "counters_inv v \<and> first_violated (enforcement_checks v cap amount a now) = None"
  then have "tx_count v \<noteq> - 1" using counters_no_overflow by blast
  then show "agent_withdraw v cap amount a now =
        Inr (v\<lparr>total_spent := total_spent v + amount, last_tx_time := now,
                tx_count := tx_count v + 1, balance_sui := balance_sui v - amount\<rparr>,
             amount,
             [AgentWithdrawal (vault_uid v) (agent_cap_uid cap) amount a
                (total_spent v + amount) (max_budget (policy v) - (total_spent v + amount))
                (tx_count v + 1) now])"
    using h by (simp add: agent_withdraw_Inr_I)
next
  fix v' c evs
  assume s: "agent_withdraw v cap amount a now = Inr (v', c, evs)"
  have n: "first_violated (enforcement_checks v cap amount a now) = None"
    and t: "tx_count v \<noteq> - 1"
    using agent_withdraw_Inr_D(1,2)[OF s] by blast+
  have v': "v' = v\<lparr>total_spent := total_spent v + amount, last_tx_time := now,
             tx_count := tx_count v + 1, balance_sui := balance_sui v - amount\<rparr>"
    and c: "c = amount"
    using agent_withdraw_Inr_D(3)[OF s] by (simp_all only: prod.inject)
  show "first_violated (enforcement_checks v cap amount a now) = None" by (rule n)
  show "c = amount" by (rule c)
  show "uint (balance_sui v') = uint (balance_sui v) - uint amount"
    using passing_arith(1)[OF n t] by (simp add: v')
  show "uint (total_spent v') = uint (total_spent v) + uint amount"
    using passing_arith(2)[OF n t] by (simp add: v')
  show "uint (tx_count v') = uint (tx_count v) + 1"
    using passing_arith(3)[OF n t] by (simp add: v')
  show "last_tx_time v' = now" by (simp add: v')
  show "vault_uid v' = vault_uid v" by (simp add: v')
  show "owner v' = owner v" by (simp add: v')
  show "policy v' = policy v" by (simp add: v')
  show "authorized_caps v' = authorized_caps v" by (simp add: v')
next
  fix e
  assume "agent_withdraw v cap amount a now = Inl e"
  then show "run_ops v [AgentWithdraw cap amount a now] = v"
    by (simp add: commit_def and_then_simps)
qed

text \<open>
  The theorem at the vault of the test scenario after one withdrawal of 1 SUI: a second
  withdrawal of 0.5 SUI at 60000 ms succeeds with the stated transition, and the same
  request at 59999 ms aborts with \<open>E_COOLDOWN\<close> and leaves the vault as it was.
\<close>

theorem C4_withdraw_transition_witness:
  "counters_inv spent_vault
   \<and> first_violated (enforcement_checks spent_vault test_agent_cap HALF_SUI ACTION_SWAP 60000) = None
   \<and> agent_withdraw spent_vault test_agent_cap HALF_SUI ACTION_SWAP 60000 =
       Inr (spent_vault\<lparr>total_spent := 1500000000, last_tx_time := 60000, tx_count := 2,
                        balance_sui := 8500000000\<rparr>,
            HALF_SUI,
            [AgentWithdrawal VAULT_ID AGENT_CAP_ID HALF_SUI ACTION_SWAP 1500000000 3500000000 2 60000])
   \<and> agent_withdraw spent_vault test_agent_cap HALF_SUI ACTION_SWAP 59999 = Inl E_COOLDOWN
   \<and> run_ops spent_vault [AgentWithdraw test_agent_cap HALF_SUI ACTION_SWAP 59999] = spent_vault"
proof -
  have a: "counters_inv spent_vault" by (simp add: counters_inv_def spent_vault_eq)
  have b: "first_violated (enforcement_checks spent_vault test_agent_cap HALF_SUI ACTION_SWAP 60000)
             = None"
    by (simp add: enforcement_checks_def spent_vault_eq test_agent_cap_eq scenario_consts)
  have c: "agent_withdraw spent_vault test_agent_cap HALF_SUI ACTION_SWAP 59999 = Inl E_COOLDOWN"
    by (simp add: agent_withdraw_if spent_vault_eq test_agent_cap_eq scenario_consts)
  have d: "agent_withdraw spent_vault test_agent_cap HALF_SUI ACTION_SWAP 60000 =
        Inr (spent_vault\<lparr>total_spent := total_spent spent_vault + HALF_SUI, last_tx_time := 60000,
                tx_count := tx_count spent_vault + 1,
                balance_sui := balance_sui spent_vault - HALF_SUI\<rparr>,
             HALF_SUI,
             [AgentWithdrawal (vault_uid spent_vault) (agent_cap_uid test_agent_cap) HALF_SUI
                ACTION_SWAP (total_spent spent_vault + HALF_SUI)
                (max_budget (policy spent_vault) - (total_spent spent_vault + HALF_SUI))
                (tx_count spent_vault + 1) 60000])"
    using a b
      C4_withdraw_transition[of spent_vault test_agent_cap HALF_SUI ACTION_SWAP 60000,
        THEN conjunct1]
    by blast
  have e: "run_ops spent_vault [AgentWithdraw test_agent_cap HALF_SUI ACTION_SWAP 59999]
             = spent_vault"
    using c
      C4_withdraw_transition[of spent_vault test_agent_cap HALF_SUI ACTION_SWAP 59999,
        THEN conjunct2, THEN conjunct2]
    by blast
  have f: "spent_vault\<lparr>total_spent := total_spent spent_vault + HALF_SUI, last_tx_time := 60000,
                tx_count := tx_count spent_vault + 1,
                balance_sui := balance_sui spent_vault - HALF_SUI\<rparr>
           = spent_vault\<lparr>total_spent := 1500000000, last_tx_time := 60000, tx_count := 2,
                        balance_sui := 8500000000\<rparr>"
    by (simp add: spent_vault_eq scenario_consts)
  have g: "AgentWithdrawal (vault_uid spent_vault) (agent_cap_uid test_agent_cap) HALF_SUI
                ACTION_SWAP (total_spent spent_vault + HALF_SUI)
                (max_budget (policy spent_vault) - (total_spent spent_vault + HALF_SUI))
                (tx_count spent_vault + 1) 60000
           = AgentWithdrawal VAULT_ID AGENT_CAP_ID HALF_SUI ACTION_SWAP 1500000000 3500000000 2 60000"
    by (simp add: spent_vault_eq test_agent_cap_eq scenario_consts)
  show ?thesis
    using a b c e d[unfolded f g] by (simp only: simp_thms)
qed

section \<open>Boundaries of the limit comparisons\<close>

lemma agent_withdraw_Inl_cases:
  assumes "agent_withdraw v cap amount a now = Inl e"
  shows "(e = E_ZERO_AMOUNT \<and> \<not> 0 < amount)
    \<or> (e = E_INVALID_CAP \<and> 0 < amount \<and>
         (agent_cap_vault_id cap \<noteq> vault_uid v \<or> agent_cap_uid cap \<notin> set (authorized_caps v)))
    \<or> (e = E_EXPIRED \<and> \<not> now < expires_at (policy v))
    \<or> (e = E_COOLDOWN \<and> 0 < tx_count v \<and> last_tx_time v \<le> now
         \<and> \<not> cooldown_ms (policy v) \<le> now - last_tx_time v)
    \<or> (e = E_PER_TX_EXCEEDED \<and> \<not> amount \<le> max_per_tx (policy v))
    \<or> (e = E_BUDGET_EXCEEDED \<and> total_spent v \<le> max_budget (policy v)
         \<and> \<not> amount \<le> max_budget (policy v) - total_spent v)
    \<or> (e = E_NOT_WHITELISTED \<and> a \<notin> set (allowed_actions (policy v)))
    \<or> (e = E_INSUFFICIENT_BALANCE \<and> \<not> amount \<le> balance_sui v)
    \<or> (e = ARITHMETIC_ERROR)"
  using assms unfolding agent_withdraw_if
  by (simp split: if_splits)


lemma checkPolicy_reason_cases:
  "reason (checkPolicy vd t n amt) = r \<Longrightarrow>
     (r = PolicyExpired \<and> expiresAt (vd_policy vd) \<le> n)
   \<or> (\<exists>s. r = CooldownActive s \<and> js_minus n (lastTxTime vd) < cooldownMs (vd_policy vd))
   \<or> (\<exists>x. r = NotWhitelisted x)
   \<or> r = AmountNotPositive
   \<or> (\<exists>x y. r = ExceedsPerTx x y \<and> amt = Some x \<and> maxPerTx (vd_policy vd) < x)
   \<or> (\<exists>x y. r = ExceedsBudget x y \<and> amt = Some x
         \<and> maxBudget (vd_policy vd) - totalSpent vd < x)
   \<or> (\<exists>x y. r = InsufficientVaultBalance y x \<and> amt = Some x \<and> balance vd < x)
   \<or> r = CheckPassed"
  by (cases amt) (auto simp: checkPolicy_def Let_def split: if_splits)

text \<open>
  Claim C5. In \<open>agent_withdraw\<close> an amount equal to \<open>max_per_tx\<close> is not rejected
  by the per-transaction check, an amount equal to \<open>max_budget - total_spent\<close> is not
  rejected by the budget check, an amount equal to the balance is not rejected by the
  balance check, and an elapsed time equal to \<open>cooldown_ms\<close> is not rejected by the
  cooldown check; at \<open>now = expires_at\<close> the call always aborts, and it aborts with
  \<open>E_EXPIRED\<close> once the amount and capability checks before the expiry check pass;
  with an empty whitelist the call always aborts. In \<open>checkPolicy\<close> the same four
  boundary values never produce the reason of their check (the elapsed time being the
  difference that the code computes on doubles), \<open>nowMs = expiresAt\<close> is denied as
  expired, and an empty whitelist is always denied.
\<close>

theorem C5_boundaries_inclusive:
  "(amount = max_per_tx (policy v) \<longrightarrow>
      agent_withdraw v cap amount a now \<noteq> Inl E_PER_TX_EXCEEDED)
   \<and> (uint amount = uint (max_budget (policy v)) - uint (total_spent v) \<longrightarrow>
      agent_withdraw v cap amount a now \<noteq> Inl E_BUDGET_EXCEEDED)
   \<and> (amount = balance_sui v \<longrightarrow>
      agent_withdraw v cap amount a now \<noteq> Inl E_INSUFFICIENT_BALANCE)
   \<and> (uint now - uint (last_tx_time v) = uint (cooldown_ms (policy v)) \<longrightarrow>
      agent_withdraw v cap amount a now \<noteq> Inl E_COOLDOWN)
   \<and> (now = expires_at (policy v) \<longrightarrow>
      (\<exists>e. agent_withdraw v cap amount a now = Inl e)
      \<and> (0 < amount \<and> agent_cap_vault_id cap = vault_uid v
           \<and> agent_cap_uid cap \<in> set (authorized_caps v) \<longrightarrow>
           agent_withdraw v cap amount a now = Inl E_EXPIRED))
   \<and> (allowed_actions (policy v) = [] \<longrightarrow>
      (\<exists>e. agent_withdraw v cap amount a now = Inl e))
   \<and> (m = maxPerTx (vd_policy vd) \<longrightarrow>
      (\<forall>x y. reason (checkPolicy vd t n (Some m)) \<noteq> ExceedsPerTx x y))
   \<and> (m = maxBudget (vd_policy vd) - totalSpent vd \<longrightarrow>
      (\<forall>x y. reason (checkPolicy vd t n (Some m)) \<noteq> ExceedsBudget x y))
   \<and> (m = balance vd \<longrightarrow>
      (\<forall>x y. reason (checkPolicy vd t n (Some m)) \<noteq> InsufficientVaultBalance x y))
   \<and> (js_minus n (lastTxTime vd) = cooldownMs (vd_policy vd) \<longrightarrow>
      (\<forall>s. reason (checkPolicy vd t n amt) \<noteq> CooldownActive s))
   \<and> (n = expiresAt (vd_policy vd) \<longrightarrow>
      checkPolicy vd t n amt = \<lparr> allowed = False, reason = PolicyExpired \<rparr>)
   \<and> (allowedActions (vd_policy vd) = [] \<longrightarrow> \<not> allowed (checkPolicy vd t n amt))"
proof (intro conjI impI allI)
  assume "amount = max_per_tx (policy v)"
  then show "agent_withdraw v cap amount a now \<noteq> Inl E_PER_TX_EXCEEDED"
    using agent_withdraw_Inl_cases[of v cap amount a now E_PER_TX_EXCEEDED] by auto
next
  assume h: "uint amount = uint (max_budget (policy v)) - uint (total_spent v)"
  then have "uint amount \<le> uint (max_budget (policy v)) - uint (total_spent v)" by simp
  then have "total_spent v \<le> max_budget (policy v)
     \<and> amount \<le> max_budget (policy v) - total_spent v"
    by (simp only: check7_iff)
  then show "agent_withdraw v cap amount a now \<noteq> Inl E_BUDGET_EXCEEDED"
    using agent_withdraw_Inl_cases[of v cap amount a now E_BUDGET_EXCEEDED] by auto
next
  assume "amount = balance_sui v"
  then show "agent_withdraw v cap amount a now \<noteq> Inl E_INSUFFICIENT_BALANCE"
    using agent_withdraw_Inl_cases[of v cap amount a now E_INSUFFICIENT_BALANCE] by auto
next
  assume h: "uint now - uint (last_tx_time v) = uint (cooldown_ms (policy v))"
  then have "0 < uint (tx_count v) \<longrightarrow>
      uint (cooldown_ms (policy v)) \<le> uint now - uint (last_tx_time v)" by simp
  then have "0 < tx_count v \<longrightarrow> cooldown_ms (policy v) \<le> now - last_tx_time v"
    by (simp add: check5_iff)
  then show "agent_withdraw v cap amount a now \<noteq> Inl E_COOLDOWN"
    using agent_withdraw_Inl_cases[of v cap amount a now E_COOLDOWN] by auto
next
  assume h: "now = expires_at (policy v)"
  then show "\<exists>e. agent_withdraw v cap amount a now = Inl e"
    by (simp add: agent_withdraw_if)
next
  assume "now = expires_at (policy v)"
    and "0 < amount \<and> agent_cap_vault_id cap = vault_uid v
           \<and> agent_cap_uid cap \<in> set (authorized_caps v)"
  then show "agent_withdraw v cap amount a now = Inl E_EXPIRED"
    by (simp add: agent_withdraw_if)
next
  assume "allowed_actions (policy v) = []"
  then show "\<exists>e. agent_withdraw v cap amount a now = Inl e"
    by (simp add: agent_withdraw_if)
next
  fix x y
  assume "m = maxPerTx (vd_policy vd)"
  then show "reason (checkPolicy vd t n (Some m)) \<noteq> ExceedsPerTx x y"
    using checkPolicy_reason_cases[of vd t n "Some m" "ExceedsPerTx x y"] by auto
next
  fix x y
  assume "m = maxBudget (vd_policy vd) - totalSpent vd"
  then show "reason (checkPolicy vd t n (Some m)) \<noteq> ExceedsBudget x y"
    using checkPolicy_reason_cases[of vd t n "Some m" "ExceedsBudget x y"] by auto
next
  fix x y
  assume "m = balance vd"
  then show "reason (checkPolicy vd t n (Some m)) \<noteq> InsufficientVaultBalance x y"
    using checkPolicy_reason_cases[of vd t n "Some m" "InsufficientVaultBalance x y"] by auto
next
  fix s
  assume "js_minus n (lastTxTime vd) = cooldownMs (vd_policy vd)"
  then show "reason (checkPolicy vd t n amt) \<noteq> CooldownActive s"
    using checkPolicy_reason_cases[of vd t n amt "CooldownActive s"] by auto
next
  assume "n = expiresAt (vd_policy vd)"
  then show "checkPolicy vd t n amt = \<lparr> allowed = False, reason = PolicyExpired \<rparr>"
    by (simp add: checkPolicy_def)
next
  assume "allowedActions (vd_policy vd) = []"
  then show "\<not> allowed (checkPolicy vd t n amt)"
    by (simp add: checkPolicy_def Let_def)
qed

text \<open>
  The theorem at the boundary vault: 1 SUI at 60000 ms sits on all four inclusive
  limits at once and both paths let it through; at the expiry time the withdrawal
  aborts with \<open>E_EXPIRED\<close> and the pre-check reports the expiry; with the whitelist
  emptied both paths refuse.
\<close>

theorem C5_boundaries_inclusive_witness:
  "ONE_SUI = max_per_tx (policy boundary_vault)
   \<and> uint ONE_SUI = uint (max_budget (policy boundary_vault)) - uint (total_spent boundary_vault)
   \<and> ONE_SUI = balance_sui boundary_vault
   \<and> uint (60000::u64) - uint (last_tx_time boundary_vault)
       = uint (cooldown_ms (policy boundary_vault))
   \<and> (\<exists>r. agent_withdraw boundary_vault test_agent_cap ONE_SUI ACTION_SWAP 60000 = Inr r)
   \<and> agent_withdraw boundary_vault test_agent_cap ONE_SUI ACTION_SWAP 60000
       \<noteq> Inl E_PER_TX_EXCEEDED
   \<and> agent_withdraw boundary_vault test_agent_cap ONE_SUI ACTION_SWAP 60000
       \<noteq> Inl E_BUDGET_EXCEEDED
   \<and> agent_withdraw boundary_vault test_agent_cap ONE_SUI ACTION_SWAP 60000
       \<noteq> Inl E_INSUFFICIENT_BALANCE
   \<and> agent_withdraw boundary_vault test_agent_cap ONE_SUI ACTION_SWAP 60000 \<noteq> Inl E_COOLDOWN
   \<and> agent_withdraw boundary_vault test_agent_cap ONE_SUI ACTION_SWAP DEFAULT_EXPIRES_AT
       = Inl E_EXPIRED
   \<and> (\<exists>e. agent_withdraw (boundary_vault\<lparr>policy := (policy boundary_vault)\<lparr>allowed_actions := []\<rparr>\<rparr>)
            test_agent_cap ONE_SUI ACTION_SWAP 60000 = Inl e)
   \<and> allowed (checkPolicy (parseVaultData VAULT_ID boundary_vault) 0 60000 (Some 1000000000))
   \<and> (\<forall>x y. reason (checkPolicy (parseVaultData VAULT_ID boundary_vault) 0 60000 (Some 1000000000))
         \<noteq> ExceedsPerTx x y)
   \<and> (\<forall>x y. reason (checkPolicy (parseVaultData VAULT_ID boundary_vault) 0 60000 (Some 1000000000))
         \<noteq> ExceedsBudget x y)
   \<and> (\<forall>x y. reason (checkPolicy (parseVaultData VAULT_ID boundary_vault) 0 60000 (Some 1000000000))
         \<noteq> InsufficientVaultBalance x y)
   \<and> (\<forall>s. reason (checkPolicy (parseVaultData VAULT_ID boundary_vault) 0 60000 (Some 1000000000))
         \<noteq> CooldownActive s)
   \<and> checkPolicy (parseVaultData VAULT_ID boundary_vault) 0 999999999999 (Some 1000000000)
       = \<lparr> allowed = False, reason = PolicyExpired \<rparr>
   \<and> \<not> allowed (checkPolicy
         (parseVaultData VAULT_ID
            (boundary_vault\<lparr>policy := (policy boundary_vault)\<lparr>allowed_actions := []\<rparr>\<rparr>))
         0 60000 (Some 1000000000))"
proof -
  let ?vd = "parseVaultData VAULT_ID boundary_vault"
  let ?ev = "boundary_vault\<lparr>policy := (policy boundary_vault)\<lparr>allowed_actions := []\<rparr>\<rparr>"
  let ?evd = "parseVaultData VAULT_ID ?ev"
  note C5 = C5_boundaries_inclusive
  have h1: "ONE_SUI = max_per_tx (policy boundary_vault)"
    by (simp add: boundary_vault_def scenario_consts)
  have h2: "uint ONE_SUI
      = uint (max_budget (policy boundary_vault)) - uint (total_spent boundary_vault)"
    by (simp add: boundary_vault_def scenario_consts)
  have h3: "ONE_SUI = balance_sui boundary_vault"
    by (simp add: boundary_vault_def scenario_consts)
  have h4: "uint (60000::u64) - uint (last_tx_time boundary_vault)
       = uint (cooldown_ms (policy boundary_vault))"
    by (simp add: boundary_vault_def scenario_consts)
  have h5: "DEFAULT_EXPIRES_AT = expires_at (policy boundary_vault)"
    by (simp add: boundary_vault_def)
  have h5': "0 < ONE_SUI \<and> agent_cap_vault_id test_agent_cap = vault_uid boundary_vault
           \<and> agent_cap_uid test_agent_cap \<in> set (authorized_caps boundary_vault)"
    by (simp add: boundary_vault_def test_agent_cap_def scenario_consts)
  have h6: "allowed_actions (policy ?ev) = []" by simp
  have m1: "(1000000000::int) = maxPerTx (vd_policy ?vd)"
    by (simp add: parseVaultData_def parsePolicy_def boundary_vault_def scenario_consts
        Number_def round_double_def)
  have m2: "(1000000000::int) = maxBudget (vd_policy ?vd) - totalSpent ?vd"
    by (simp add: parseVaultData_def parsePolicy_def boundary_vault_def scenario_consts
        Number_def round_double_def)
  have m3: "(1000000000::int) = balance ?vd"
    by (simp add: parseVaultData_def parsePolicy_def boundary_vault_def scenario_consts
        Number_def round_double_def)
  have m4: "js_minus (60000::int) (lastTxTime ?vd) = cooldownMs (vd_policy ?vd)"
    by (simp add: parseVaultData_def parsePolicy_def boundary_vault_def scenario_consts
        js_minus_def round_double_def)
  have m5: "(999999999999::int) = expiresAt (vd_policy ?vd)"
    by (simp add: parseVaultData_def parsePolicy_def boundary_vault_def scenario_consts
        Number_def round_double_def)
  have m6: "allowedActions (vd_policy ?evd) = []"
    by (simp add: parseVaultData_def parsePolicy_def)
  have s: "\<exists>r. agent_withdraw boundary_vault test_agent_cap ONE_SUI ACTION_SWAP 60000 = Inr r"
    by (simp add: agent_withdraw_if boundary_vault_def test_agent_cap_def scenario_consts)
  have ms: "allowed (checkPolicy ?vd 0 60000 (Some 1000000000))"
    by (simp add: checkPolicy_def parseVaultData_def parsePolicy_def boundary_vault_def
        scenario_consts Let_def Number_def js_minus_def round_double_def)
  note I = C5[of ONE_SUI boundary_vault test_agent_cap ACTION_SWAP 60000
               1000000000 ?vd 0 60000 "Some 1000000000"]
  note J = C5[of ONE_SUI boundary_vault test_agent_cap ACTION_SWAP DEFAULT_EXPIRES_AT
               1000000000 ?vd 0 999999999999 "Some 1000000000"]
  note K = C5[of ONE_SUI ?ev test_agent_cap ACTION_SWAP 60000
               1000000000 ?evd 0 60000 "Some 1000000000"]
  have c1: "agent_withdraw boundary_vault test_agent_cap ONE_SUI ACTION_SWAP 60000
       \<noteq> Inl E_PER_TX_EXCEEDED"
    using h1 I[THEN conjunct1] by (rule rev_mp)
  have c2: "agent_withdraw boundary_vault test_agent_cap ONE_SUI ACTION_SWAP 60000
       \<noteq> Inl E_BUDGET_EXCEEDED"
    using h2 I[THEN conjunct2, THEN conjunct1] by (rule rev_mp)
  have c3: "agent_withdraw boundary_vault test_agent_cap ONE_SUI ACTION_SWAP 60000
       \<noteq> Inl E_INSUFFICIENT_BALANCE"
    using h3 I[THEN conjunct2, THEN conjunct2, THEN conjunct1] by (rule rev_mp)
  have c4: "agent_withdraw boundary_vault test_agent_cap ONE_SUI ACTION_SWAP 60000
       \<noteq> Inl E_COOLDOWN"
    using h4 I[THEN conjunct2, THEN conjunct2, THEN conjunct2, THEN conjunct1] by (rule rev_mp)
  note R = conjunct2[THEN conjunct2, THEN conjunct2, THEN conjunct2]
  have c5: "agent_withdraw boundary_vault test_agent_cap ONE_SUI ACTION_SWAP DEFAULT_EXPIRES_AT
       = Inl E_EXPIRED"
    using h5 h5' J[THEN R, THEN conjunct1] by blast
  have c6: "\<exists>e. agent_withdraw ?ev test_agent_cap ONE_SUI ACTION_SWAP 60000 = Inl e"
    using h6 K[THEN R, THEN conjunct2, THEN conjunct1] by (rule rev_mp)
  note R2 = R[THEN conjunct2, THEN conjunct2]
  have d1: "\<forall>x y. reason (checkPolicy ?vd 0 60000 (Some 1000000000)) \<noteq> ExceedsPerTx x y"
    using m1 I[THEN R2, THEN conjunct1] by (rule rev_mp)
  have d2: "\<forall>x y. reason (checkPolicy ?vd 0 60000 (Some 1000000000)) \<noteq> ExceedsBudget x y"
    using m2 I[THEN R2, THEN conjunct2, THEN conjunct1] by (rule rev_mp)
  have d3: "\<forall>x y. reason (checkPolicy ?vd 0 60000 (Some 1000000000))
              \<noteq> InsufficientVaultBalance x y"
    using m3 I[THEN R2, THEN conjunct2, THEN conjunct2, THEN conjunct1] by (rule rev_mp)
  have d4: "\<forall>s. reason (checkPolicy ?vd 0 60000 (Some 1000000000)) \<noteq> CooldownActive s"
    using m4 I[THEN R2, THEN conjunct2, THEN conjunct2, THEN conjunct2, THEN conjunct1]
    by (rule rev_mp)
  have d5: "checkPolicy ?vd 0 999999999999 (Some 1000000000)
       = \<lparr> allowed = False, reason = PolicyExpired \<rparr>"
    using m5 J[THEN R2, THEN R, THEN conjunct1] by (rule rev_mp)
  have d6: "\<not> allowed (checkPolicy ?evd 0 60000 (Some 1000000000))"
    using m6 K[THEN R2, THEN R, THEN conjunct2] by (rule rev_mp)
  show ?thesis
    using h1 h2 h3 h4 s c1 c2 c3 c4 c5 c6 ms d1 d2 d3 d4 d5 d6
    by (simp only: simp_thms)
qed

section \<open>The first withdrawal and the cooldown\<close>

lemma reset_counters_Inr:
  "reset_counters v oc = Inr r \<Longrightarrow>
     r = (v\<lparr>total_spent := 0, tx_count := 0, last_tx_time := 0\<rparr>, [])"
  by (auto simp: reset_counters_def and_then_assert split: if_splits)

lemma create_agent_cap_Inr:
  "create_agent_cap v oc ad new_id = Inr r \<Longrightarrow>
     r = (v\<lparr>authorized_caps := authorized_caps v @ [new_id]\<rparr>,
          (\<lparr> agent_cap_uid = new_id, agent_cap_vault_id = vault_uid v \<rparr>, ad),
          [AgentCapCreated (vault_uid v) new_id ad])"
  by (auto simp: create_agent_cap_def and_then_assert push_back_def Let_def split: if_splits)

lemma agent_withdraw_cooldown_free:
  assumes "tx_count v = 0"
  shows "agent_withdraw (v\<lparr>last_tx_time := t, policy := (policy v)\<lparr>cooldown_ms := cd\<rparr>\<rparr>)
           cap amount a now = Inl e
         \<longleftrightarrow> agent_withdraw v cap amount a now = Inl e"
  using assms by (simp add: agent_withdraw_if)

text \<open>
  Claim C6. A delegated withdrawal on a vault with \<open>tx_count = 0\<close> never aborts with
  \<open>E_COOLDOWN\<close>, whatever the cooldown and the time are; an abort with \<open>E_COOLDOWN\<close>
  happens only with \<open>tx_count > 0\<close> and an elapsed time below the cooldown. A vault
  made by \<open>create_vault\<close> has \<open>tx_count = 0\<close>, minting a capability keeps the
  count, and \<open>reset_counters\<close> sets it to zero, so the next delegated withdrawal is
  exempt. With \<open>tx_count = 0\<close> the check is not evaluated at all: which abort the
  call raises, if any, does not depend on \<open>cooldown_ms\<close> or \<open>last_tx_time\<close>.
\<close>

theorem C6_first_withdrawal_exempt:
  "(tx_count v = 0 \<longrightarrow> agent_withdraw v cap amount a now \<noteq> Inl E_COOLDOWN)
   \<and> (agent_withdraw v cap amount a now = Inl E_COOLDOWN \<longrightarrow>
        0 < tx_count v \<and> last_tx_time v \<le> now
        \<and> now - last_tx_time v < cooldown_ms (policy v))
   \<and> tx_count (fst (create_vault coin mb mpt acts cd ex sender new_vault_uid new_cap_uid)) = 0
   \<and> (\<forall>v' out. create_agent_cap v oc ad new_id = Inr (v', out) \<longrightarrow> tx_count v' = tx_count v)
   \<and> (\<forall>v' evs. reset_counters v oc = Inr (v', evs) \<longrightarrow>
        tx_count v' = 0 \<and> agent_withdraw v' cap amount a now \<noteq> Inl E_COOLDOWN)
   \<and> (tx_count v = 0 \<longrightarrow>
        (\<forall>t cd' e.
           agent_withdraw (v\<lparr>last_tx_time := t, policy := (policy v)\<lparr>cooldown_ms := cd'\<rparr>\<rparr>)
             cap amount a now = Inl e
           \<longleftrightarrow> agent_withdraw v cap amount a now = Inl e))"
proof (intro conjI impI allI)
  assume "tx_count v = 0"
  then show "agent_withdraw v cap amount a now \<noteq> Inl E_COOLDOWN"
    using agent_withdraw_Inl_cases[of v cap amount a now E_COOLDOWN] by auto
next
  assume h: "agent_withdraw v cap amount a now = Inl E_COOLDOWN"
  from agent_withdraw_Inl_cases[OF h]
  have c: "0 < tx_count v \<and> last_tx_time v \<le> now
         \<and> \<not> cooldown_ms (policy v) \<le> now - last_tx_time v" by simp
  from c show "0 < tx_count v" by simp
  from c show "last_tx_time v \<le> now" by simp
  from c show "now - last_tx_time v < cooldown_ms (policy v)" by (simp add: not_le)
next
  show "tx_count (fst (create_vault coin mb mpt acts cd ex sender new_vault_uid new_cap_uid)) = 0"
    by (simp add: create_vault_def Let_def)
next
  fix v' out
  assume "create_agent_cap v oc ad new_id = Inr (v', out)"
  from create_agent_cap_Inr[OF this] show "tx_count v' = tx_count v" by simp
next
  fix v' evs
  assume "reset_counters v oc = Inr (v', evs)"
  from reset_counters_Inr[OF this] show t: "tx_count v' = 0" by simp
  then show "agent_withdraw v' cap amount a now \<noteq> Inl E_COOLDOWN"
    using agent_withdraw_Inl_cases[of v' cap amount a now E_COOLDOWN] by auto
next
  fix t cd' e
  assume "tx_count v = 0"
  then show "agent_withdraw (v\<lparr>last_tx_time := t, policy := (policy v)\<lparr>cooldown_ms := cd'\<rparr>\<rparr>)
             cap amount a now = Inl e
           \<longleftrightarrow> agent_withdraw v cap amount a now = Inl e"
    by (rule agent_withdraw_cooldown_free)
qed

text \<open>
  The theorem at the test scenario, 5 ms after time 0 with a cooldown of 60 seconds:
  the first withdrawal of the fresh vault is not held back by the cooldown, the second
  one is, and after \<open>reset_counters\<close> it is exempt again.
\<close>

theorem C6_first_withdrawal_exempt_witness:
  "tx_count setup_vault_with_agent = 0
   \<and> agent_withdraw setup_vault_with_agent test_agent_cap ONE_SUI ACTION_SWAP 5 \<noteq> Inl E_COOLDOWN
   \<and> reset_counters spent_vault test_owner_cap
       = Inr (spent_vault\<lparr>total_spent := 0, tx_count := 0, last_tx_time := 0\<rparr>, [])
   \<and> agent_withdraw (spent_vault\<lparr>total_spent := 0, tx_count := 0, last_tx_time := 0\<rparr>)
       test_agent_cap ONE_SUI ACTION_SWAP 5 \<noteq> Inl E_COOLDOWN
   \<and> agent_withdraw spent_vault test_agent_cap ONE_SUI ACTION_SWAP 5 = Inl E_COOLDOWN
   \<and> 0 < tx_count spent_vault"
proof -
  have a: "tx_count setup_vault_with_agent = 0" by (simp add: setup_vault_with_agent_eq)
  have b: "reset_counters spent_vault test_owner_cap
       = Inr (spent_vault\<lparr>total_spent := 0, tx_count := 0, last_tx_time := 0\<rparr>, [])"
    by (simp add: reset_counters_def and_then_assert spent_vault_eq test_owner_cap_eq)
  have c: "agent_withdraw spent_vault test_agent_cap ONE_SUI ACTION_SWAP 5 = Inl E_COOLDOWN"
    by (simp add: agent_withdraw_if spent_vault_eq test_agent_cap_eq scenario_consts)
  note I = C6_first_withdrawal_exempt[of setup_vault_with_agent test_agent_cap ONE_SUI ACTION_SWAP 5]
  note J = C6_first_withdrawal_exempt[of spent_vault test_agent_cap ONE_SUI ACTION_SWAP 5
             _ _ _ _ _ _ _ _ _ test_owner_cap]
  have d: "agent_withdraw setup_vault_with_agent test_agent_cap ONE_SUI ACTION_SWAP 5
     \<noteq> Inl E_COOLDOWN"
    using a I[THEN conjunct1] by (rule rev_mp)
  have e: "0 < tx_count spent_vault"
    using c J[THEN conjunct2, THEN conjunct1] by blast
  have f: "agent_withdraw (spent_vault\<lparr>total_spent := 0, tx_count := 0, last_tx_time := 0\<rparr>)
       test_agent_cap ONE_SUI ACTION_SWAP 5 \<noteq> Inl E_COOLDOWN"
    using b J[THEN conjunct2, THEN conjunct2, THEN conjunct2, THEN conjunct2, THEN conjunct1]
    by blast
  show ?thesis using a b c d e f by (simp only: simp_thms)
qed

section \<open>Owner withdrawals and deposit\<close>

lemma deposit_if:
  "deposit v oc coin =
     (if owner_cap_vault_id oc = vault_uid v then
        if unat (balance_sui v) + unat coin < 2 ^ 64 then
          Inr (v\<lparr>balance_sui := balance_sui v + coin\<rparr>,
               [Deposited (vault_uid v) coin (balance_sui v + coin)])
        else Inl ARITHMETIC_ERROR
      else Inl E_NOT_OWNER)"
  by (simp add: deposit_def balance_join_def and_then_assert and_then_add Let_def)

lemma withdraw_all_if:
  "withdraw_all v oc =
     (if owner_cap_vault_id oc = vault_uid v then
        Inr (v\<lparr>balance_sui := 0\<rparr>, balance_sui v, [WithdrawnAll (vault_uid v) (balance_sui v)])
      else Inl E_NOT_OWNER)"
  by (simp add: withdraw_all_def and_then_assert and_then_split Let_def)

lemma withdraw_if:
  "withdraw v oc amount =
     (if owner_cap_vault_id oc = vault_uid v then
        if 0 < amount then
          if amount \<le> balance_sui v then
            Inr (v\<lparr>balance_sui := balance_sui v - amount\<rparr>, amount, [])
          else Inl E_INSUFFICIENT_BALANCE
        else Inl E_ZERO_AMOUNT
      else Inl E_NOT_OWNER)"
  by (simp add: withdraw_def and_then_assert and_then_split)

lemma reset_counters_if:
  "reset_counters v oc =
     (if owner_cap_vault_id oc = vault_uid v then
        Inr (v\<lparr>total_spent := 0, tx_count := 0, last_tx_time := 0\<rparr>, [])
      else Inl E_NOT_OWNER)"
  by (simp add: reset_counters_def and_then_assert)

lemma update_policy_if:
  "update_policy v oc mb mpt acts cd ex =
     (if owner_cap_vault_id oc = vault_uid v then
        Inr (v\<lparr>policy := \<lparr> max_budget = mb, max_per_tx = mpt, allowed_actions = acts,
                              cooldown_ms = cd, expires_at = ex \<rparr>\<rparr>,
             [PolicyUpdated (vault_uid v) mb mpt cd ex])
      else Inl E_NOT_OWNER)"
  by (simp add: update_policy_def and_then_assert)

lemma create_agent_cap_if:
  "create_agent_cap v oc ad new_id =
     (if owner_cap_vault_id oc = vault_uid v then
        Inr (v\<lparr>authorized_caps := authorized_caps v @ [new_id]\<rparr>,
             (\<lparr> agent_cap_uid = new_id, agent_cap_vault_id = vault_uid v \<rparr>, ad),
             [AgentCapCreated (vault_uid v) new_id ad])
      else Inl E_NOT_OWNER)"
  by (simp add: create_agent_cap_def and_then_assert push_back_def Let_def)

lemma revoke_agent_cap_if:
  "revoke_agent_cap v oc cap_id =
     (if owner_cap_vault_id oc = vault_uid v then
        if cap_id \<in> set (authorized_caps v) then
          Inr (v\<lparr>authorized_caps := remove1 cap_id (authorized_caps v)\<rparr>,
               [AgentCapRevoked (vault_uid v) cap_id])
        else Inl E_INVALID_CAP
      else Inl E_NOT_OWNER)"
proof (cases "cap_id \<in> set (authorized_caps v)")
  case True
  then show ?thesis
    using vector_remove_index_of[OF True] index_of_fst[of "authorized_caps v" cap_id]
    by (simp add: revoke_agent_cap_def and_then_assert and_then_simps split_def Let_def)
next
  case False
  then show ?thesis
    using index_of_fst[of "authorized_caps v" cap_id]
    by (simp add: revoke_agent_cap_def and_then_assert and_then_simps split_def Let_def)
qed

text \<open>
  Claim C8. With an owner capability bound to the vault, \<open>withdraw\<close> aborts with
  \<open>E_ZERO_AMOUNT\<close> for the amount 0 and with \<open>E_INSUFFICIENT_BALANCE\<close> for an
  amount above the balance, and otherwise pays the amount out of the balance;
  \<open>withdraw_all\<close> always succeeds, leaves the balance at zero and returns exactly the
  prior balance. Whenever either of them succeeds, \<open>total_spent\<close>, \<open>tx_count\<close>
  and \<open>last_tx_time\<close> are unchanged.
\<close>

theorem C8_owner_withdrawals:
  "(owner_cap_vault_id oc = vault_uid v \<longrightarrow>
      withdraw v oc 0 = Inl E_ZERO_AMOUNT
      \<and> (balance_sui v < amount \<longrightarrow> withdraw v oc amount = Inl E_INSUFFICIENT_BALANCE)
      \<and> (0 < amount \<and> amount \<le> balance_sui v \<longrightarrow>
           withdraw v oc amount = Inr (v\<lparr>balance_sui := balance_sui v - amount\<rparr>, amount, []))
      \<and> withdraw_all v oc =
           Inr (v\<lparr>balance_sui := 0\<rparr>, balance_sui v,
                [WithdrawnAll (vault_uid v) (balance_sui v)]))
   \<and> (\<forall>v' c evs. withdraw v oc amount = Inr (v', c, evs) \<longrightarrow>
        total_spent v' = total_spent v \<and> tx_count v' = tx_count v
        \<and> last_tx_time v' = last_tx_time v)
   \<and> (\<forall>v' c evs. withdraw_all v oc = Inr (v', c, evs) \<longrightarrow>
        balance_sui v' = 0 \<and> c = balance_sui v
        \<and> total_spent v' = total_spent v \<and> tx_count v' = tx_count v
        \<and> last_tx_time v' = last_tx_time v)"
proof (intro conjI impI allI)
  assume o: "owner_cap_vault_id oc = vault_uid v"
  show "withdraw v oc 0 = Inl E_ZERO_AMOUNT" using o by (simp add: withdraw_if)
  show "withdraw_all v oc =
           Inr (v\<lparr>balance_sui := 0\<rparr>, balance_sui v,
                [WithdrawnAll (vault_uid v) (balance_sui v)])"
    using o by (simp add: withdraw_all_if)
  {
    assume l: "balance_sui v < amount"
    then have "0 < amount" by (simp add: word_gt_0) (metis word_not_simps(1))
    then show "withdraw v oc amount = Inl E_INSUFFICIENT_BALANCE"
      using o l by (simp add: withdraw_if not_le)
  }
  {
    assume "0 < amount \<and> amount \<le> balance_sui v"
    then show "withdraw v oc amount = Inr (v\<lparr>balance_sui := balance_sui v - amount\<rparr>, amount, [])"
      using o by (simp add: withdraw_if)
  }
next
  fix v' c evs
  assume "withdraw v oc amount = Inr (v', c, evs)"
  then have "v' = v\<lparr>balance_sui := balance_sui v - amount\<rparr>"
    by (auto simp: withdraw_if split: if_splits)
  then show "total_spent v' = total_spent v" "tx_count v' = tx_count v"
    "last_tx_time v' = last_tx_time v" by simp_all
next
  fix v' c evs
  assume "withdraw_all v oc = Inr (v', c, evs)"
  then have "v' = v\<lparr>balance_sui := 0\<rparr> \<and> c = balance_sui v"
    by (auto simp: withdraw_all_if split: if_splits)
  then show "balance_sui v' = 0" "c = balance_sui v" "total_spent v' = total_spent v"
    "tx_count v' = tx_count v" "last_tx_time v' = last_tx_time v" by simp_all
qed

text \<open>
  The theorem at the vault of the test scenario after one delegated withdrawal, whose
  balance is 9 SUI and whose counters are not zero.
\<close>

theorem C8_owner_withdrawals_witness:
  "owner_cap_vault_id test_owner_cap = vault_uid spent_vault
   \<and> withdraw spent_vault test_owner_cap 0 = Inl E_ZERO_AMOUNT
   \<and> balance_sui spent_vault < TEN_SUI
   \<and> withdraw spent_vault test_owner_cap TEN_SUI = Inl E_INSUFFICIENT_BALANCE
   \<and> 0 < ONE_SUI \<and> ONE_SUI \<le> balance_sui spent_vault
   \<and> withdraw spent_vault test_owner_cap ONE_SUI
       = Inr (spent_vault\<lparr>balance_sui := balance_sui spent_vault - ONE_SUI\<rparr>, ONE_SUI, [])
   \<and> withdraw_all spent_vault test_owner_cap
       = Inr (spent_vault\<lparr>balance_sui := 0\<rparr>, balance_sui spent_vault,
              [WithdrawnAll (vault_uid spent_vault) (balance_sui spent_vault)])
   \<and> balance_sui spent_vault = 9000000000
   \<and> total_spent (spent_vault\<lparr>balance_sui := 0\<rparr>) = total_spent spent_vault
   \<and> tx_count (spent_vault\<lparr>balance_sui := 0\<rparr>) = tx_count spent_vault
   \<and> last_tx_time (spent_vault\<lparr>balance_sui := 0\<rparr>) = last_tx_time spent_vault"
proof -
  note I = C8_owner_withdrawals[of test_owner_cap spent_vault TEN_SUI]
  note J = C8_owner_withdrawals[of test_owner_cap spent_vault ONE_SUI]
  have o: "owner_cap_vault_id test_owner_cap = vault_uid spent_vault"
    by (simp add: spent_vault_eq test_owner_cap_eq)
  have l: "balance_sui spent_vault < TEN_SUI" by (simp add: spent_vault_eq scenario_consts)
  have p: "0 < ONE_SUI \<and> ONE_SUI \<le> balance_sui spent_vault"
    by (simp add: spent_vault_eq scenario_consts)
  have b: "balance_sui spent_vault = 9000000000" by (simp add: spent_vault_eq)
  have z: "withdraw spent_vault test_owner_cap 0 = Inl E_ZERO_AMOUNT"
    using o I[THEN conjunct1] by blast
  have i: "withdraw spent_vault test_owner_cap TEN_SUI = Inl E_INSUFFICIENT_BALANCE"
    using o l I[THEN conjunct1] by blast
  have w: "withdraw spent_vault test_owner_cap ONE_SUI
       = Inr (spent_vault\<lparr>balance_sui := balance_sui spent_vault - ONE_SUI\<rparr>, ONE_SUI, [])"
    using o p J[THEN conjunct1] by blast
  have a: "withdraw_all spent_vault test_owner_cap
       = Inr (spent_vault\<lparr>balance_sui := 0\<rparr>, balance_sui spent_vault,
              [WithdrawnAll (vault_uid spent_vault) (balance_sui spent_vault)])"
    using o I[THEN conjunct1] by blast
  have c: "total_spent (spent_vault\<lparr>balance_sui := 0\<rparr>) = total_spent spent_vault
      \<and> tx_count (spent_vault\<lparr>balance_sui := 0\<rparr>) = tx_count spent_vault
      \<and> last_tx_time (spent_vault\<lparr>balance_sui := 0\<rparr>) = last_tx_time spent_vault"
    using a I[THEN conjunct2, THEN conjunct2] by blast
  show ?thesis using o l p b z i w a c by (simp only: simp_thms)
qed

lemma unat_u64_bound: "unat (x::u64) < 18446744073709551616"
  using unsigned_less[of x, where 'a=nat] by simp

text \<open>
  Claim C10. \<open>deposit\<close> has no check on the deposited amount: with an owner capability
  bound to the vault, a coin of value zero is accepted, the vault is unchanged and the
  \<open>Deposited\<close> event carries the amount 0. With a capability bound to another vault
  the call aborts with \<open>E_NOT_OWNER\<close>, and that is the only abort of \<open>deposit\<close>
  as long as the sum of the balance and the coin fits into \<open>u64\<close>. The sum always
  fits on the ledger, where the whole supply of SUI is below \<open>2 ^ 64\<close> units; the
  framework's \<open>balance::join\<close> aborts on the overflow that the types alone would
  allow.
\<close>

theorem C10_deposit_no_positivity_check:
  "(owner_cap_vault_id oc = vault_uid v \<longrightarrow>
      deposit v oc 0 = Inr (v, [Deposited (vault_uid v) 0 (balance_sui v)]))
   \<and> (owner_cap_vault_id oc \<noteq> vault_uid v \<longrightarrow> deposit v oc coin = Inl E_NOT_OWNER)
   \<and> (owner_cap_vault_id oc = vault_uid v \<and> unat (balance_sui v) + unat coin < 2 ^ 64 \<longrightarrow>
        deposit v oc coin =
          Inr (v\<lparr>balance_sui := balance_sui v + coin\<rparr>,
               [Deposited (vault_uid v) coin (balance_sui v + coin)]))
   \<and> (unat (balance_sui v) + unat coin < 2 ^ 64 \<longrightarrow>
        (\<forall>e. deposit v oc coin = Inl e \<longrightarrow>
           e = E_NOT_OWNER \<and> owner_cap_vault_id oc \<noteq> vault_uid v))"
  by (auto simp: deposit_if unat_u64_bound)

text \<open>
  The theorem at the fresh vault of the test scenario: a deposit of zero, a deposit of
  1 SUI, and a deposit with an owner capability of another vault.
\<close>

theorem C10_deposit_witness:
  "owner_cap_vault_id test_owner_cap = vault_uid test_vault
   \<and> deposit test_vault test_owner_cap 0
       = Inr (test_vault, [Deposited (vault_uid test_vault) 0 (balance_sui test_vault)])
   \<and> balance_sui test_vault = TEN_SUI
   \<and> unat (balance_sui test_vault) + unat ONE_SUI < 2 ^ 64
   \<and> deposit test_vault test_owner_cap ONE_SUI
       = Inr (test_vault\<lparr>balance_sui := balance_sui test_vault + ONE_SUI\<rparr>,
              [Deposited (vault_uid test_vault) ONE_SUI (balance_sui test_vault + ONE_SUI)])
   \<and> owner_cap_vault_id (test_owner_cap\<lparr>owner_cap_vault_id := 0x2001\<rparr>) \<noteq> vault_uid test_vault
   \<and> deposit test_vault (test_owner_cap\<lparr>owner_cap_vault_id := 0x2001\<rparr>) 0 = Inl E_NOT_OWNER"
proof -
  let ?oc = "test_owner_cap\<lparr>owner_cap_vault_id := 0x2001\<rparr>"
  note I = C10_deposit_no_positivity_check[of test_owner_cap test_vault ONE_SUI]
  note J = C10_deposit_no_positivity_check[of ?oc test_vault 0]
  have o: "owner_cap_vault_id test_owner_cap = vault_uid test_vault"
    by (simp add: test_vault_eq test_owner_cap_eq)
  have b: "balance_sui test_vault = TEN_SUI" by (simp add: test_vault_eq scenario_consts)
  have n: "unat (balance_sui test_vault) + unat ONE_SUI < 2 ^ 64"
    by (simp add: test_vault_eq scenario_consts)
  have m: "owner_cap_vault_id ?oc \<noteq> vault_uid test_vault" by (simp add: test_vault_eq)
  have z: "deposit test_vault test_owner_cap 0
       = Inr (test_vault, [Deposited (vault_uid test_vault) 0 (balance_sui test_vault)])"
    using o I[THEN conjunct1] by blast
  have d: "deposit test_vault test_owner_cap ONE_SUI
       = Inr (test_vault\<lparr>balance_sui := balance_sui test_vault + ONE_SUI\<rparr>,
              [Deposited (vault_uid test_vault) ONE_SUI (balance_sui test_vault + ONE_SUI)])"
    using o n I[THEN conjunct2, THEN conjunct2, THEN conjunct1] by blast
  have e: "deposit test_vault ?oc 0 = Inl E_NOT_OWNER"
    using m J[THEN conjunct2, THEN conjunct1] by blast
  have f: "unat (balance_sui test_vault) + unat (0::u64) < 2 ^ 64
      \<longrightarrow> (\<forall>e. deposit test_vault ?oc 0 = Inl e \<longrightarrow>
            e = E_NOT_OWNER \<and> owner_cap_vault_id ?oc \<noteq> vault_uid test_vault)"
    by (rule J[THEN conjunct2, THEN conjunct2, THEN conjunct2])
  show ?thesis using o b n m z d e by (simp only: simp_thms)
qed

section \<open>Invariants of the vault and revocation\<close>

lemma apply_op_Inr_cases:
  assumes "apply_op v x = Inr v'"
  shows "(\<exists>oc coin. x = Deposit oc coin \<and> v' = v\<lparr>balance_sui := balance_sui v + coin\<rparr>)
    \<or> (\<exists>oc. x = WithdrawAll oc \<and> v' = v\<lparr>balance_sui := 0\<rparr>)
    \<or> (\<exists>oc amount. x = Withdraw oc amount \<and> v' = v\<lparr>balance_sui := balance_sui v - amount\<rparr>)
    \<or> (\<exists>oc. x = ResetCounters oc
          \<and> v' = v\<lparr>total_spent := 0, tx_count := 0, last_tx_time := 0\<rparr>)
    \<or> (\<exists>oc mb mpt acts cd ex. x = UpdatePolicy oc mb mpt acts cd ex
          \<and> v' = v\<lparr>policy := \<lparr> max_budget = mb, max_per_tx = mpt, allowed_actions = acts,
                                  cooldown_ms = cd, expires_at = ex \<rparr>\<rparr>)
    \<or> (\<exists>oc ad new_id. x = CreateAgentCap oc ad new_id
          \<and> v' = v\<lparr>authorized_caps := authorized_caps v @ [new_id]\<rparr>)
    \<or> (\<exists>oc cap_id. x = RevokeAgentCap oc cap_id
          \<and> v' = v\<lparr>authorized_caps := remove1 cap_id (authorized_caps v)\<rparr>)
    \<or> (\<exists>cap amount a now. x = AgentWithdraw cap amount a now
          \<and> first_violated (enforcement_checks v cap amount a now) = None
          \<and> tx_count v \<noteq> - 1
          \<and> v' = v\<lparr>total_spent := total_spent v + amount, last_tx_time := now,
                    tx_count := tx_count v + 1, balance_sui := balance_sui v - amount\<rparr>)"
proof (cases x)
  case (Deposit oc coin)
  then show ?thesis using assms
    by (auto simp: deposit_if and_then_simps split: if_splits)
next
  case (WithdrawAll oc)
  then show ?thesis using assms
    by (auto simp: withdraw_all_if and_then_simps split: if_splits)
next
  case (Withdraw oc amount)
  then show ?thesis using assms
    by (auto simp: withdraw_if and_then_simps split: if_splits)
next
  case (ResetCounters oc)
  then show ?thesis using assms
    by (auto simp: reset_counters_if and_then_simps split: if_splits)
next
  case (UpdatePolicy oc mb mpt acts cd ex)
  then show ?thesis using assms
    by (auto simp: update_policy_if and_then_simps split: if_splits)
next
  case (CreateAgentCap oc ad new_id)
  then show ?thesis using assms
    by (auto simp: create_agent_cap_if and_then_simps split: if_splits)
next
  case (RevokeAgentCap oc cap_id)
  then show ?thesis using assms
    by (auto simp: revoke_agent_cap_if and_then_simps split: if_splits)
next
  case (AgentWithdraw cap amount a now)
  with assms obtain r where r: "agent_withdraw v cap amount a now = Inr r" and "fst r = v'"
    by (cases "agent_withdraw v cap amount a now") (auto simp: and_then_simps)
  with agent_withdraw_Inr_D[OF r] AgentWithdraw show ?thesis by simp
qed


lemma apply_op_caps:
  assumes "apply_op v x = Inr v'"
  shows "set (authorized_caps v') \<subseteq> set (authorized_caps v) \<union> set (minted [x])"
  using apply_op_Inr_cases[OF assms] set_remove1_subset by fastforce

lemma minted_Cons: "set (minted (x # xs)) = set (minted [x]) \<union> set (minted xs)"
  by (cases x) auto

lemma commit_caps:
  "set (authorized_caps (commit v (apply_op v x)))
     \<subseteq> set (authorized_caps v) \<union> set (minted [x])"
proof (cases "apply_op v x")
  case (Inl e)
  then show ?thesis by (simp add: commit_def)
next
  case (Inr v')
  then show ?thesis using apply_op_caps[OF Inr] by (simp add: commit_def)
qed

lemma run_ops_caps:
  "set (authorized_caps (run_ops v xs)) \<subseteq> set (authorized_caps v) \<union> set (minted xs)"
proof (induction xs arbitrary: v)
  case Nil
  then show ?case by simp
next
  case (Cons x xs)
  have "set (authorized_caps (run_ops v (x # xs)))
      \<subseteq> set (authorized_caps (commit v (apply_op v x))) \<union> set (minted xs)"
    using Cons.IH[of "commit v (apply_op v x)"] by simp
  also have "\<dots> \<subseteq> (set (authorized_caps v) \<union> set (minted [x])) \<union> set (minted xs)"
    using commit_caps[of v x] by blast
  finally show ?case by (simp only: minted_Cons[of x xs] Un_assoc)
qed

lemma apply_op_distinct:
  assumes "apply_op v x = Inr v'" "distinct (authorized_caps v)"
    "\<forall>c \<in> set (minted [x]). c \<notin> set (authorized_caps v)"
  shows "distinct (authorized_caps v')"
  using apply_op_Inr_cases[OF assms(1)] assms(2,3) by auto

lemma create_vault_invs:
  "counters_inv (fst (create_vault coin mb mpt acts cd ex sender new_vault_uid new_cap_uid))"
  "budget_inv (fst (create_vault coin mb mpt acts cd ex sender new_vault_uid new_cap_uid))"
  "distinct (authorized_caps
     (fst (create_vault coin mb mpt acts cd ex sender new_vault_uid new_cap_uid)))"
  by (simp_all add: create_vault_def counters_inv_def budget_inv_def Let_def)

lemma apply_op_counters_inv:
  assumes "apply_op v x = Inr v'" "counters_inv v"
  shows "counters_inv v'"
proof -
  {
    fix cap amount a now
    assume n: "first_violated (enforcement_checks v cap amount a now) = None"
      and t: "tx_count v \<noteq> - 1"
    have pos: "0 < amount" and b: "total_spent v \<le> max_budget (policy v)"
      and le: "amount \<le> max_budget (policy v) - total_spent v"
      using n unfolding first_violated_enforcement by (simp_all split: if_splits)
    have 1: "unat (tx_count v) \<le> unat (total_spent v)"
      using assms(2) by (simp add: counters_inv_def word_le_nat_alt)
    have 2: "0 < unat amount" using pos by (simp add: word_less_nat_alt)
    have 3: "unat (total_spent v + amount) = unat (total_spent v) + unat amount"
      by (rule u64_add_no_overflow(3)[OF b le])
    have "unat (tx_count v) + unat (1::u64) < 2 ^ 64"
      using t by (simp add: u64_succ_no_overflow)
    then have 4: "unat (tx_count v + 1) = unat (tx_count v) + unat (1::u64)"
      by (intro unat_add_lem[THEN iffD1]) simp
    have "tx_count v + 1 \<le> total_spent v + amount"
      using 1 2 3 4 by (simp add: word_le_nat_alt)
  }
  then show ?thesis
    using apply_op_Inr_cases[OF assms(1)] assms(2) by (auto simp: counters_inv_def)
qed

lemma run_ops_counters_inv: "counters_inv v \<Longrightarrow> counters_inv (run_ops v xs)"
proof (induction xs arbitrary: v)
  case Nil
  then show ?case by simp
next
  case (Cons x xs)
  have "counters_inv (commit v (apply_op v x))"
  proof (cases "apply_op v x")
    case (Inl e)
    then show ?thesis using Cons.prems by (simp add: commit_def)
  next
    case (Inr v')
    then show ?thesis using apply_op_counters_inv[OF Inr Cons.prems] by (simp add: commit_def)
  qed
  then show ?case using Cons.IH by simp
qed

lemma apply_op_budget_inv:
  assumes "apply_op v x = Inr v'" "budget_inv v"
    "\<forall>oc mb mpt acts cd ex. x \<noteq> UpdatePolicy oc mb mpt acts cd ex"
  shows "budget_inv v'"
proof -
  {
    fix cap amount a now
    assume n: "first_violated (enforcement_checks v cap amount a now) = None"
    have b: "total_spent v \<le> max_budget (policy v)"
      and le: "amount \<le> max_budget (policy v) - total_spent v"
      using n unfolding first_violated_enforcement by (simp_all split: if_splits)
    have "total_spent v + amount \<le> max_budget (policy v)"
      by (rule u64_add_no_overflow(2)[OF b le])
  }
  then show ?thesis
    using apply_op_Inr_cases[OF assms(1)] assms(2,3) by (auto simp: budget_inv_def)
qed

text \<open>
  Claim C7, as the code has it. With an owner capability bound to the vault,
  \<open>revoke_agent_cap\<close> takes the identifier out of \<open>authorized_caps\<close> when it is
  there and aborts with \<open>E_INVALID_CAP\<close> when it is not. After a successful
  revocation on a registry without duplicates, and after any further transactions that
  do not mint that identifier again (\<open>object::new\<close> never repeats an identifier),
  the identifier is still absent and every delegated withdrawal presenting a capability
  with that identifier aborts: with \<open>E_INVALID_CAP\<close> when the amount is not zero,
  and with \<open>E_ZERO_AMOUNT\<close> when it is, since the amount is checked first.
\<close>

theorem C7_revocation:
  "(owner_cap_vault_id oc = vault_uid v \<and> cap_id \<in> set (authorized_caps v) \<longrightarrow>
      revoke_agent_cap v oc cap_id =
        Inr (v\<lparr>authorized_caps := remove1 cap_id (authorized_caps v)\<rparr>,
             [AgentCapRevoked (vault_uid v) cap_id]))
   \<and> (owner_cap_vault_id oc = vault_uid v \<and> cap_id \<notin> set (authorized_caps v) \<longrightarrow>
      revoke_agent_cap v oc cap_id = Inl E_INVALID_CAP)
   \<and> (\<forall>v' evs. revoke_agent_cap v oc cap_id = Inr (v', evs) \<and> distinct (authorized_caps v)
          \<and> cap_id \<notin> set (minted ops) \<and> agent_cap_uid cap = cap_id \<longrightarrow>
        cap_id \<notin> set (authorized_caps (run_ops v' ops))
        \<and> (\<exists>e. agent_withdraw (run_ops v' ops) cap amount a now = Inl e)
        \<and> (0 < amount \<longrightarrow>
             agent_withdraw (run_ops v' ops) cap amount a now = Inl E_INVALID_CAP)
        \<and> (amount = 0 \<longrightarrow>
             agent_withdraw (run_ops v' ops) cap amount a now = Inl E_ZERO_AMOUNT))"
proof (intro conjI impI allI)
  assume "owner_cap_vault_id oc = vault_uid v \<and> cap_id \<in> set (authorized_caps v)"
  then show "revoke_agent_cap v oc cap_id =
        Inr (v\<lparr>authorized_caps := remove1 cap_id (authorized_caps v)\<rparr>,
             [AgentCapRevoked (vault_uid v) cap_id])"
    by (simp add: revoke_agent_cap_if)
next
  assume "owner_cap_vault_id oc = vault_uid v \<and> cap_id \<notin> set (authorized_caps v)"
  then show "revoke_agent_cap v oc cap_id = Inl E_INVALID_CAP"
    by (simp add: revoke_agent_cap_if)
next
  fix v' evs
  assume h: "revoke_agent_cap v oc cap_id = Inr (v', evs) \<and> distinct (authorized_caps v)
          \<and> cap_id \<notin> set (minted ops) \<and> agent_cap_uid cap = cap_id"
  then have "v' = v\<lparr>authorized_caps := remove1 cap_id (authorized_caps v)\<rparr>"
    by (auto simp: revoke_agent_cap_if split: if_splits)
  then have "cap_id \<notin> set (authorized_caps v')" using h by simp
  then show n: "cap_id \<notin> set (authorized_caps (run_ops v' ops))"
    using run_ops_caps[of v' ops] h by blast
  then have m: "agent_cap_uid cap \<notin> set (authorized_caps (run_ops v' ops))" using h by simp
  show "\<exists>e. agent_withdraw (run_ops v' ops) cap amount a now = Inl e"
    using m by (simp add: agent_withdraw_if)
  show "agent_withdraw (run_ops v' ops) cap amount a now = Inl E_INVALID_CAP" if "0 < amount"
    using m that by (simp add: agent_withdraw_if)
  show "agent_withdraw (run_ops v' ops) cap amount a now = Inl E_ZERO_AMOUNT" if "amount = 0"
    using that by (simp add: agent_withdraw_if)
qed

text \<open>
  The theorem at the test scenario: the agent capability is revoked, the owner then
  mints another capability and deposits 1 SUI, and a withdrawal of 1 SUI with the
  revoked capability aborts with \<open>E_INVALID_CAP\<close>; revoking it a second time aborts
  with \<open>E_INVALID_CAP\<close> as well.
\<close>

theorem C7_revocation_witness:
  "owner_cap_vault_id test_owner_cap = vault_uid setup_vault_with_agent
   \<and> AGENT_CAP_ID \<in> set (authorized_caps setup_vault_with_agent)
   \<and> revoke_agent_cap setup_vault_with_agent test_owner_cap AGENT_CAP_ID
       = Inr (setup_vault_with_agent
                \<lparr>authorized_caps := remove1 AGENT_CAP_ID (authorized_caps setup_vault_with_agent)\<rparr>,
              [AgentCapRevoked (vault_uid setup_vault_with_agent) AGENT_CAP_ID])
   \<and> distinct (authorized_caps setup_vault_with_agent)
   \<and> AGENT_CAP_ID \<notin> set (minted [CreateAgentCap test_owner_cap AGENT 0x1004,
                                    Deposit test_owner_cap ONE_SUI])
   \<and> agent_cap_uid test_agent_cap = AGENT_CAP_ID
   \<and> agent_withdraw
        (run_ops (setup_vault_with_agent
                    \<lparr>authorized_caps := remove1 AGENT_CAP_ID (authorized_caps setup_vault_with_agent)\<rparr>)
           [CreateAgentCap test_owner_cap AGENT 0x1004, Deposit test_owner_cap ONE_SUI])
        test_agent_cap ONE_SUI ACTION_SWAP 0 = Inl E_INVALID_CAP
   \<and> AGENT_CAP_ID \<notin> set (authorized_caps revoked_vault)
   \<and> revoke_agent_cap revoked_vault test_owner_cap AGENT_CAP_ID = Inl E_INVALID_CAP"
proof -
  let ?ops = "[CreateAgentCap test_owner_cap AGENT 0x1004, Deposit test_owner_cap ONE_SUI]"
  let ?v' = "setup_vault_with_agent
               \<lparr>authorized_caps := remove1 AGENT_CAP_ID (authorized_caps setup_vault_with_agent)\<rparr>"
  note I = C7_revocation[of test_owner_cap setup_vault_with_agent AGENT_CAP_ID ?ops
             test_agent_cap ONE_SUI ACTION_SWAP 0]
  note J = C7_revocation[of test_owner_cap revoked_vault AGENT_CAP_ID]
  have o: "owner_cap_vault_id test_owner_cap = vault_uid setup_vault_with_agent"
    by (simp add: setup_vault_with_agent_eq test_owner_cap_eq)
  have p: "AGENT_CAP_ID \<in> set (authorized_caps setup_vault_with_agent)"
    by (simp add: setup_vault_with_agent_eq scenario_consts)
  have d: "distinct (authorized_caps setup_vault_with_agent)"
    by (simp add: setup_vault_with_agent_eq)
  have f: "AGENT_CAP_ID \<notin> set (minted ?ops)" by (simp add: scenario_consts)
  have c: "agent_cap_uid test_agent_cap = AGENT_CAP_ID" by (simp add: test_agent_cap_def)
  have z: "0 < ONE_SUI" by (simp add: scenario_consts)
  have o2: "owner_cap_vault_id test_owner_cap = vault_uid revoked_vault"
    by (simp add: revoked_vault_eq test_owner_cap_eq)
  have q: "AGENT_CAP_ID \<notin> set (authorized_caps revoked_vault)"
    by (simp add: revoked_vault_eq)
  have r: "revoke_agent_cap setup_vault_with_agent test_owner_cap AGENT_CAP_ID
       = Inr (?v', [AgentCapRevoked (vault_uid setup_vault_with_agent) AGENT_CAP_ID])"
    using o p I[THEN conjunct1] by blast
  have w: "agent_withdraw (run_ops ?v' ?ops) test_agent_cap ONE_SUI ACTION_SWAP 0
       = Inl E_INVALID_CAP"
    using r d f c z I[THEN conjunct2, THEN conjunct2] by blast
  have e: "revoke_agent_cap revoked_vault test_owner_cap AGENT_CAP_ID = Inl E_INVALID_CAP"
    using o2 q J[THEN conjunct2, THEN conjunct1] by blast
  show ?thesis using o p r d f c w q e by (simp only: simp_thms)
qed

text \<open>
  C7 as stated fails for a zero amount: after the revocation, a delegated withdrawal
  of 0 with the revoked capability aborts with \<open>E_ZERO_AMOUNT\<close>, not with
  \<open>E_INVALID_CAP\<close>.
\<close>

theorem C7_counterexample:
  "revoke_agent_cap setup_vault_with_agent test_owner_cap AGENT_CAP_ID
     = Inr (revoked_vault, [AgentCapRevoked VAULT_ID AGENT_CAP_ID])
   \<and> agent_cap_uid test_agent_cap = AGENT_CAP_ID
   \<and> agent_withdraw revoked_vault test_agent_cap 0 ACTION_SWAP 0 = Inl E_ZERO_AMOUNT"
  by (simp add: revoke_agent_cap_if agent_withdraw_if revoked_vault_eq setup_vault_with_agent_eq
      test_owner_cap_eq test_agent_cap_eq scenario_consts)

section \<open>The budget invariant\<close>

lemma budget_sum_iff:
  fixes ts amount mb :: u64
  shows "uint mb < uint ts + uint amount \<longleftrightarrow> \<not> (ts \<le> mb \<and> amount \<le> mb - ts)"
  using check7_iff[of amount mb ts] by linarith

text \<open>
  Claim C3, as the code has it. \<open>total_spent \<le> max_budget\<close> holds in the vault made
  by \<open>create_vault\<close> and is kept by every successful transaction other than
  \<open>update_policy\<close>: deposit, the owner withdrawals, \<open>reset_counters\<close>, minting and
  revoking a capability, and \<open>agent_withdraw\<close>. \<open>update_policy\<close> stores the new
  policy without looking at \<open>total_spent\<close>, so the invariant holds afterwards exactly
  when the new \<open>max_budget\<close> is at least \<open>total_spent\<close>. A successful
  \<open>agent_withdraw\<close> starts and ends in a vault that satisfies the invariant, pays the
  requested amount and adds it to \<open>total_spent\<close> without wrap-around. A delegated
  withdrawal whose amount would take \<open>total_spent\<close> above \<open>max_budget\<close> is always
  rejected and leaves the vault unchanged, never clamped; on a vault that satisfies the
  invariant, when the checks before the budget check pass, the abort is
  \<open>E_BUDGET_EXCEEDED\<close>.
\<close>

theorem C3_budget_invariant:
  "budget_inv (fst (create_vault coin mb0 mpt0 acts0 cd0 ex0 sender new_vault_uid new_cap_uid))
   \<and> (budget_inv v \<and> apply_op v x = Inr v'
        \<and> (\<forall>oc mb mpt acts cd ex. x \<noteq> UpdatePolicy oc mb mpt acts cd ex) \<longrightarrow> budget_inv v')
   \<and> (\<forall>w evs. update_policy v oc mb mpt acts cd ex = Inr (w, evs) \<longrightarrow>
        (budget_inv w \<longleftrightarrow> total_spent v \<le> mb))
   \<and> (\<forall>w c evs. agent_withdraw v cap amount a now = Inr (w, c, evs) \<longrightarrow>
        budget_inv v \<and> budget_inv w \<and> c = amount
        \<and> uint (total_spent w) = uint (total_spent v) + uint amount)
   \<and> (uint (max_budget (policy v)) < uint (total_spent v) + uint amount \<longrightarrow>
        (\<exists>e. agent_withdraw v cap amount a now = Inl e)
        \<and> run_ops v [AgentWithdraw cap amount a now] = v)
   \<and> (budget_inv v
        \<and> uint (max_budget (policy v)) < uint (total_spent v) + uint amount
        \<and> 0 < amount \<and> agent_cap_vault_id cap = vault_uid v
        \<and> agent_cap_uid cap \<in> set (authorized_caps v) \<and> now < expires_at (policy v)
        \<and> (tx_count v = 0 \<or>
            (last_tx_time v \<le> now \<and> cooldown_ms (policy v) \<le> now - last_tx_time v))
        \<and> amount \<le> max_per_tx (policy v) \<longrightarrow>
        agent_withdraw v cap amount a now = Inl E_BUDGET_EXCEEDED)"
proof (intro conjI impI allI)
  show "budget_inv (fst (create_vault coin mb0 mpt0 acts0 cd0 ex0 sender new_vault_uid new_cap_uid))"
    by (rule create_vault_invs(2))
next
  assume "budget_inv v \<and> apply_op v x = Inr v'
        \<and> (\<forall>oc mb mpt acts cd ex. x \<noteq> UpdatePolicy oc mb mpt acts cd ex)"
  then show "budget_inv v'" using apply_op_budget_inv[of v x v'] by blast
next
  fix w evs
  assume "update_policy v oc mb mpt acts cd ex = Inr (w, evs)"
  then have "w = v\<lparr>policy := \<lparr> max_budget = mb, max_per_tx = mpt, allowed_actions = acts,
                              cooldown_ms = cd, expires_at = ex \<rparr>\<rparr>"
    by (auto simp: update_policy_if split: if_splits)
  then show "budget_inv w \<longleftrightarrow> total_spent v \<le> mb" by (simp add: budget_inv_def)
next
  fix w c evs
  assume s: "agent_withdraw v cap amount a now = Inr (w, c, evs)"
  have n: "first_violated (enforcement_checks v cap amount a now) = None"
    and t: "tx_count v \<noteq> - 1"
    using agent_withdraw_Inr_D(1,2)[OF s] by blast+
  have w: "w = v\<lparr>total_spent := total_spent v + amount, last_tx_time := now,
             tx_count := tx_count v + 1, balance_sui := balance_sui v - amount\<rparr>"
    and c: "c = amount"
    using agent_withdraw_Inr_D(3)[OF s] by (simp_all only: prod.inject)
  have b: "total_spent v \<le> max_budget (policy v)"
    and le: "amount \<le> max_budget (policy v) - total_spent v"
    using n unfolding first_violated_enforcement by (simp_all split: if_splits)
  show "budget_inv v" using b by (simp add: budget_inv_def)
  show "budget_inv w" using u64_add_no_overflow(2)[OF b le] by (simp add: budget_inv_def w)
  show "c = amount" by (rule c)
  show "uint (total_spent w) = uint (total_spent v) + uint amount"
    using passing_arith(2)[OF n t] by (simp add: w)
next
  assume h: "uint (max_budget (policy v)) < uint (total_spent v) + uint amount"
  then have k: "\<not> (total_spent v \<le> max_budget (policy v)
      \<and> amount \<le> max_budget (policy v) - total_spent v)"
    by (simp add: budget_sum_iff)
  then show e: "\<exists>e. agent_withdraw v cap amount a now = Inl e"
    by (auto simp: agent_withdraw_if)
  then show "run_ops v [AgentWithdraw cap amount a now] = v"
    by (auto simp: commit_def and_then_simps)
next
  assume h: "budget_inv v
        \<and> uint (max_budget (policy v)) < uint (total_spent v) + uint amount
        \<and> 0 < amount \<and> agent_cap_vault_id cap = vault_uid v
        \<and> agent_cap_uid cap \<in> set (authorized_caps v) \<and> now < expires_at (policy v)
        \<and> (tx_count v = 0 \<or>
            (last_tx_time v \<le> now \<and> cooldown_ms (policy v) \<le> now - last_tx_time v))
        \<and> amount \<le> max_per_tx (policy v)"
  then have k: "\<not> (total_spent v \<le> max_budget (policy v)
      \<and> amount \<le> max_budget (policy v) - total_spent v)"
    by (simp add: budget_sum_iff)
  have c: "(0 < tx_count v \<longrightarrow> last_tx_time v \<le> now) \<and>
    (0 < tx_count v \<longrightarrow> cooldown_ms (policy v) \<le> now - last_tx_time v)" using h by auto
  show "agent_withdraw v cap amount a now = Inl E_BUDGET_EXCEEDED"
    using h k c by (simp add: agent_withdraw_if budget_inv_def)
qed

text \<open>
  The theorem at the test scenario: the first withdrawal keeps the invariant; lowering
  the budget to 0.5 SUI after 1 SUI is spent breaks it, and a further withdrawal leaves
  that vault as it is; on the vault whose budget of 5 SUI is used up, a further
  withdrawal of 1 SUI aborts with \<open>E_BUDGET_EXCEEDED\<close> and changes nothing.
\<close>

theorem C3_budget_invariant_witness:
  "budget_inv setup_vault_with_agent
   \<and> apply_op setup_vault_with_agent (AgentWithdraw test_agent_cap ONE_SUI ACTION_SWAP 0)
       = Inr spent_vault
   \<and> budget_inv spent_vault
   \<and> uint (total_spent spent_vault) = uint (total_spent setup_vault_with_agent) + uint ONE_SUI
   \<and> update_policy spent_vault test_owner_cap HALF_SUI DEFAULT_MAX_PER_TX [ACTION_SWAP]
        DEFAULT_COOLDOWN_MS DEFAULT_EXPIRES_AT
       = Inr (budget_lowered_vault,
              [PolicyUpdated VAULT_ID HALF_SUI DEFAULT_MAX_PER_TX DEFAULT_COOLDOWN_MS
                 DEFAULT_EXPIRES_AT])
   \<and> \<not> total_spent spent_vault \<le> HALF_SUI
   \<and> \<not> budget_inv budget_lowered_vault
   \<and> uint (max_budget (policy (run_ops boundary_vault
                [AgentWithdraw test_agent_cap ONE_SUI ACTION_SWAP 60000])))
       < uint (total_spent (run_ops boundary_vault
                [AgentWithdraw test_agent_cap ONE_SUI ACTION_SWAP 60000])) + uint ONE_SUI
   \<and> budget_inv (run_ops boundary_vault [AgentWithdraw test_agent_cap ONE_SUI ACTION_SWAP 60000])
   \<and> agent_withdraw (run_ops boundary_vault [AgentWithdraw test_agent_cap ONE_SUI ACTION_SWAP 60000])
        test_agent_cap ONE_SUI ACTION_SWAP 120001 = Inl E_BUDGET_EXCEEDED
   \<and> run_ops (run_ops boundary_vault [AgentWithdraw test_agent_cap ONE_SUI ACTION_SWAP 60000])
        [AgentWithdraw test_agent_cap ONE_SUI ACTION_SWAP 120001]
       = run_ops boundary_vault [AgentWithdraw test_agent_cap ONE_SUI ACTION_SWAP 60000]
   \<and> run_ops budget_lowered_vault [AgentWithdraw test_agent_cap 1 ACTION_SWAP 60001]
       = budget_lowered_vault"
proof -
  let ?ex = "run_ops boundary_vault [AgentWithdraw test_agent_cap ONE_SUI ACTION_SWAP 60000]"
  have ex: "?ex = boundary_vault\<lparr>total_spent := 5000000000, last_tx_time := 60000,
                    tx_count := 5, balance_sui := 0\<rparr>"
    by (simp add: agent_withdraw_if boundary_vault_def test_agent_cap_def scenario_consts
        commit_def and_then_simps)
  note A = C3_budget_invariant[of _ _ _ _ _ _ _ _ _ setup_vault_with_agent
      "AgentWithdraw test_agent_cap ONE_SUI ACTION_SWAP 0" spent_vault
      test_owner_cap HALF_SUI DEFAULT_MAX_PER_TX "[ACTION_SWAP]" DEFAULT_COOLDOWN_MS
      DEFAULT_EXPIRES_AT test_agent_cap ONE_SUI ACTION_SWAP 0]
  note B = C3_budget_invariant[of _ _ _ _ _ _ _ _ _ spent_vault
      "AgentWithdraw test_agent_cap ONE_SUI ACTION_SWAP 0" spent_vault
      test_owner_cap HALF_SUI DEFAULT_MAX_PER_TX "[ACTION_SWAP]" DEFAULT_COOLDOWN_MS
      DEFAULT_EXPIRES_AT test_agent_cap ONE_SUI ACTION_SWAP 0]
  note C = C3_budget_invariant[of _ _ _ _ _ _ _ _ _ ?ex _ _ _ _ _ _ _ _
      test_agent_cap ONE_SUI ACTION_SWAP 120001]
  note D = C3_budget_invariant[of _ _ _ _ _ _ _ _ _ budget_lowered_vault _ _ _ _ _ _ _ _
      test_agent_cap 1 ACTION_SWAP 60001]
  note R = conjunct2[THEN conjunct2]
  have i0: "budget_inv setup_vault_with_agent"
    by (simp add: budget_inv_def setup_vault_with_agent_eq)
  have w0: "agent_withdraw setup_vault_with_agent test_agent_cap ONE_SUI ACTION_SWAP 0
      = Inr (spent_vault, ONE_SUI,
             [AgentWithdrawal 0x1001 0x1003 ONE_SUI ACTION_SWAP 1000000000 4000000000 1 0])"
    by (simp add: agent_withdraw_if setup_vault_with_agent_eq spent_vault_eq test_agent_cap_eq
        scenario_consts)
  have a0: "apply_op setup_vault_with_agent (AgentWithdraw test_agent_cap ONE_SUI ACTION_SWAP 0)
       = Inr spent_vault"
    by (simp add: w0 and_then_simps)
  have n0: "\<forall>oc mb mpt acts cd ex.
      AgentWithdraw test_agent_cap ONE_SUI ACTION_SWAP 0 \<noteq> UpdatePolicy oc mb mpt acts cd ex"
    by simp
  have i1: "budget_inv spent_vault"
    using i0 a0 n0 A[THEN conjunct2, THEN conjunct1] by blast
  have s1: "uint (total_spent spent_vault)
      = uint (total_spent setup_vault_with_agent) + uint ONE_SUI"
    using w0 A[THEN R, THEN conjunct2, THEN conjunct1] by blast
  have u: "update_policy spent_vault test_owner_cap HALF_SUI DEFAULT_MAX_PER_TX [ACTION_SWAP]
        DEFAULT_COOLDOWN_MS DEFAULT_EXPIRES_AT
       = Inr (budget_lowered_vault,
              [PolicyUpdated VAULT_ID HALF_SUI DEFAULT_MAX_PER_TX DEFAULT_COOLDOWN_MS
                 DEFAULT_EXPIRES_AT])"
    by (simp add: update_policy_if spent_vault_eq budget_lowered_vault_eq test_owner_cap_eq
        scenario_consts)
  have l: "\<not> total_spent spent_vault \<le> HALF_SUI" by (simp add: spent_vault_eq scenario_consts)
  have i2: "\<not> budget_inv budget_lowered_vault"
    using u l B[THEN R, THEN conjunct1] by blast
  have h: "uint (max_budget (policy ?ex)) < uint (total_spent ?ex) + uint ONE_SUI"
    unfolding ex by (simp add: boundary_vault_def scenario_consts)
  have i3: "budget_inv ?ex"
    unfolding ex by (simp add: budget_inv_def boundary_vault_def scenario_consts)
  have p: "0 < ONE_SUI \<and> agent_cap_vault_id test_agent_cap = vault_uid ?ex
        \<and> agent_cap_uid test_agent_cap \<in> set (authorized_caps ?ex)
        \<and> 120001 < expires_at (policy ?ex)
        \<and> (tx_count ?ex = 0 \<or>
            (last_tx_time ?ex \<le> 120001
             \<and> cooldown_ms (policy ?ex) \<le> 120001 - last_tx_time ?ex))
        \<and> ONE_SUI \<le> max_per_tx (policy ?ex)"
    unfolding ex by (simp add: boundary_vault_def test_agent_cap_def scenario_consts)
  have r: "agent_withdraw ?ex test_agent_cap ONE_SUI ACTION_SWAP 120001 = Inl E_BUDGET_EXCEEDED"
    using h p i3 C[THEN R, THEN R, THEN conjunct2] by blast
  have k: "run_ops ?ex [AgentWithdraw test_agent_cap ONE_SUI ACTION_SWAP 120001] = ?ex"
    using h C[THEN R, THEN R, THEN conjunct1] by blast
  have h2: "uint (max_budget (policy budget_lowered_vault))
      < uint (total_spent budget_lowered_vault) + uint (1::u64)"
    by (simp add: budget_lowered_vault_eq)
  have k2: "run_ops budget_lowered_vault [AgentWithdraw test_agent_cap 1 ACTION_SWAP 60001]
      = budget_lowered_vault"
    using h2 D[THEN R, THEN R, THEN conjunct1] by blast
  show ?thesis using i0 a0 i1 s1 u l i2 h i3 r k k2 by (simp only: simp_thms)
qed

text \<open>
  C3 as stated fails at \<open>update_policy\<close>: on the vault with 1 SUI spent, which
  satisfies the invariant, the owner's update to a budget of 0.5 SUI succeeds and
  leaves \<open>total_spent\<close> above \<open>max_budget\<close>.
\<close>

theorem C3_counterexample:
  "budget_inv spent_vault
   \<and> update_policy spent_vault test_owner_cap HALF_SUI DEFAULT_MAX_PER_TX [ACTION_SWAP]
        DEFAULT_COOLDOWN_MS DEFAULT_EXPIRES_AT
       = Inr (budget_lowered_vault,
              [PolicyUpdated VAULT_ID HALF_SUI DEFAULT_MAX_PER_TX DEFAULT_COOLDOWN_MS
                 DEFAULT_EXPIRES_AT])
   \<and> \<not> total_spent budget_lowered_vault \<le> max_budget (policy budget_lowered_vault)"
  by (simp add: budget_inv_def update_policy_if spent_vault_eq budget_lowered_vault_eq
      test_owner_cap_eq scenario_consts)

end
